theory Spec2Isabelle
  imports Main "HOL-Library.Sublist" "HOL-Library.Log_Nat"
begin

section \<open>Python strings\<close>

text \<open>
  A Python \<open>str\<close> is a sequence of Unicode code points, so it is modelled as a list of
  natural numbers; \<open>ascii\<close> turns an ASCII literal into such a list.  The two character
  classes the script relies on (\<open>\w\<close> of module \<open>re\<close> and the whitespace that
  \<open>str.strip\<close> removes) are fixed by CPython on the ASCII range and come from the Unicode
  database beyond it; the database is a parameter.
\<close>

type_synonym pystr = "nat list"

definition ascii :: "string \<Rightarrow> pystr" where
  "ascii s = map of_char s"

record unicode_db =
  uni_alnum :: "nat \<Rightarrow> bool"
  uni_space :: "nat \<Rightarrow> bool"

definition no_unicode :: unicode_db where
  "no_unicode = \<lparr>uni_alnum = (\<lambda>c. False), uni_space = (\<lambda>c. False)\<rparr>"

definition is_hex :: "nat \<Rightarrow> bool" where
  \<comment> \<open>the character set \<open>[0-9a-fA-F]\<close>\<close>
  "is_hex c = ((48 \<le> c \<and> c \<le> 57) \<or> (97 \<le> c \<and> c \<le> 102) \<or> (65 \<le> c \<and> c \<le> 70))"

definition is_word :: "unicode_db \<Rightarrow> nat \<Rightarrow> bool" where
  \<comment> \<open>\<open>\w\<close> for a \<open>str\<close> pattern: alphanumeric or underscore\<close>
  "is_word u c =
     (if c < 128
      then (48 \<le> c \<and> c \<le> 57) \<or> (65 \<le> c \<and> c \<le> 90) \<or> (97 \<le> c \<and> c \<le> 122) \<or> c = 95
      else uni_alnum u c)"

definition is_space :: "unicode_db \<Rightarrow> nat \<Rightarrow> bool" where
  \<comment> \<open>\<open>str.isspace\<close> on one character\<close>
  "is_space u c =
     (if c < 128 then (9 \<le> c \<and> c \<le> 13) \<or> (28 \<le> c \<and> c \<le> 32) else uni_space u c)"

definition py_strip :: "unicode_db \<Rightarrow> pystr \<Rightarrow> pystr" where
  \<comment> \<open>\<open>s.strip()\<close>\<close>
  "py_strip u s = rev (dropWhile (is_space u) (rev (dropWhile (is_space u) s)))"

function replace_empty :: "pystr \<Rightarrow> pystr \<Rightarrow> pystr" where
  \<comment> \<open>\<open>s.replace(old, "")\<close>: one pass from the left over non-overlapping occurrences\<close>
  "replace_empty s old =
     (if old = [] \<or> s = [] then s
      else if prefix old s then replace_empty (drop (length old) s) old
      else hd s # replace_empty (tl s) old)"
  by pat_completeness auto
termination
  by (relation "measure (\<lambda>(s, old). length s)") auto

section \<open>The colour-code pattern\<close>

text \<open>
  \<open>re.search(r"#(?:[0-9a-fA-F]{3}){1,2}\b", response)\<close>.  At one position the
  backtracking matcher reads \<open>#\<close>, then tries the greedy two repetitions of the
  three-digit group followed by \<open>\b\<close>, then one repetition followed by \<open>\b\<close>.
  \<open>re.search\<close> returns the match at the leftmost position that has one.
\<close>

definition at_boundary :: "unicode_db \<Rightarrow> pystr \<Rightarrow> pystr \<Rightarrow> bool" where
  \<comment> \<open>\<open>\b\<close> between the text before and the text after the current position\<close>
  "at_boundary u before after =
     ((before \<noteq> [] \<and> is_word u (last before)) \<noteq> (after \<noteq> [] \<and> is_word u (hd after)))"

definition hex3 :: "pystr \<Rightarrow> bool" where
  \<comment> \<open>\<open>[0-9a-fA-F]{3}\<close> matches at the head of the text\<close>
  "hex3 s = (3 \<le> length s \<and> list_all is_hex (take 3 s))"

definition match_here :: "unicode_db \<Rightarrow> pystr \<Rightarrow> pystr option" where
  "match_here u s =
     (case s of
        [] \<Rightarrow> None
      | c # r \<Rightarrow>
          if c \<noteq> 35 then None
          else if hex3 r \<and> hex3 (drop 3 r) \<and> at_boundary u (take 7 s) (drop 7 s)
            then Some (take 7 s)
          else if hex3 r \<and> at_boundary u (take 4 s) (drop 4 s)
            then Some (take 4 s)
          else None)"

fun re_search_from :: "unicode_db \<Rightarrow> nat \<Rightarrow> pystr \<Rightarrow> (nat \<times> pystr) option" where
  "re_search_from u i [] = None"
| "re_search_from u i (c # cs) =
     (case match_here u (c # cs) of
        Some m \<Rightarrow> Some (i, m)
      | None \<Rightarrow> re_search_from u (Suc i) cs)"

definition re_search :: "unicode_db \<Rightarrow> pystr \<Rightarrow> (nat \<times> pystr) option" where
  \<comment> \<open>the match object: its start and its \<open>group(0)\<close>\<close>
  "re_search u s = re_search_from u 0 s"

definition extract_color :: "unicode_db \<Rightarrow> pystr \<Rightarrow> pystr \<times> pystr option" where
  \<comment> \<open>lines 162 to 168 of the script: the cleaned report and the colour code\<close>
  "extract_color u response =
     (let color_code = map_option snd (re_search u response);
          response1 = (case color_code of
                         None \<Rightarrow> response
                       | Some c \<Rightarrow> if c \<noteq> [] then replace_empty response c else response)
      in (py_strip u response1, color_code))"

definition is_color_code :: "pystr \<Rightarrow> bool" where
  \<comment> \<open>\<open>#\<close> followed by exactly three or exactly six hexadecimal digits\<close>
  "is_color_code c =
     (case c of
        [] \<Rightarrow> False
      | x # h \<Rightarrow> x = 35 \<and> (length h = 3 \<or> length h = 6) \<and> list_all is_hex h)"

fun py_join :: "pystr \<Rightarrow> pystr list \<Rightarrow> pystr" where
  \<comment> \<open>\<open>sep.join(ps)\<close>, used to state what \<open>replace_empty\<close> removes\<close>
  "py_join sep [] = []"
| "py_join sep [p] = p"
| "py_join sep (p # q # ps) = p @ sep @ py_join sep (q # ps)"

section \<open>Python values\<close>

text \<open>
  The values that \<open>response.json()\<close> can return.  A \<open>float\<close> is an IEEE double: a
  finite one is given by its rational value (the two zeros are not told apart), and the
  infinities and NaN, which \<open>json.loads\<close> accepts and overflow produces, are values of
  their own.  A \<open>dict\<close> has \<open>str\<close> keys and is an association list that is searched
  from the front.
\<close>

datatype pyfloat = Fin rat | PInf | NInf | NaN

datatype pyval =
    VNone
  | VBool bool
  | VInt int
  | VFloat pyfloat
  | VStr pystr
  | VList "pyval list"
  | VDict "(pystr \<times> pyval) list"

datatype exn =
    KeyError | IndexError | TypeError | OverflowError
  | JSONDecodeError | UnicodeDecodeError | AttributeError
  | TransportError | HTTPStatusError | OtherError

definition bnd :: "exn + 'a \<Rightarrow> ('a \<Rightarrow> exn + 'b) \<Rightarrow> exn + 'b" where
  \<comment> \<open>sequencing: an exception raised by the first step skips the rest\<close>
  "bnd m f = (case m of Inl e \<Rightarrow> Inl e | Inr x \<Rightarrow> f x)"

subsection \<open>Rounding to a double\<close>

definition pow2 :: "int \<Rightarrow> rat" where
  "pow2 k = (if 0 \<le> k then 2 ^ nat k else 1 / 2 ^ nat (- k))"

definition floor_log2 :: "rat \<Rightarrow> int" where
  \<comment> \<open>for \<open>0 < q\<close>: the \<open>e\<close> with \<open>2 ^ e \<le> q < 2 ^ (e + 1)\<close>\<close>
  "floor_log2 q =
     (let k = bitlen (fst (quotient_of q)) - bitlen (snd (quotient_of q))
      in if pow2 k \<le> q then k else k - 1)"

definition round_half_even :: "rat \<Rightarrow> int" where
  "round_half_even x =
     (let f = \<lfloor>x\<rfloor>; r = x - of_int f
      in if r < 1 / 2 then f
         else if 1 / 2 < r then f + 1
         else if even f then f else f + 1)"

definition round_double :: "rat \<Rightarrow> pyfloat" where
  \<comment> \<open>round to nearest, ties to even, 53 significant bits, least exponent \<open>- 1022\<close>;
      a rounded magnitude of \<open>2 ^ 1024\<close> or more overflows to an infinity\<close>
  "round_double q =
     (if q = 0 then Fin 0
      else
        let a = \<bar>q\<bar>;
            ulp = pow2 (max (floor_log2 a) (- 1022) - 52);
            m = of_int (round_half_even (a / ulp)) * ulp
        in if 0 < m \<and> 1024 \<le> floor_log2 m then (if 0 < q then PInf else NInf)
           else Fin (if 0 < q then m else - m))"

definition float_op :: "(rat \<Rightarrow> rat) \<Rightarrow> pyfloat \<Rightarrow> pyfloat" where
  \<comment> \<open>\<open>x * c\<close>, \<open>x / c\<close> and \<open>x + c\<close> for a \<open>float\<close> \<open>x\<close> and a positive finite constant
      \<open>c\<close>: the exact result rounded; an infinity or a NaN stays what it is\<close>
  "float_op f x = (case x of Fin a \<Rightarrow> round_double (f a) | _ \<Rightarrow> x)"

definition int_to_float :: "int \<Rightarrow> exn + pyfloat" where
  \<comment> \<open>the conversion of an \<open>int\<close> operand of a \<open>float\<close> operation\<close>
  "int_to_float i =
     (case round_double (of_int i) of Fin a \<Rightarrow> Inr (Fin a) | _ \<Rightarrow> Inl OverflowError)"

subsection \<open>The operators the script applies\<close>

definition py_mul_int :: "pyval \<Rightarrow> int \<Rightarrow> exn + pyval" where
  \<comment> \<open>\<open>v * k\<close> for a positive \<open>int\<close> literal \<open>k\<close>\<close>
  "py_mul_int v k =
     (case v of
        VBool b \<Rightarrow> Inr (VInt (of_bool b * k))
      | VInt i \<Rightarrow> Inr (VInt (i * k))
      | VFloat x \<Rightarrow> Inr (VFloat (float_op (\<lambda>a. a * of_int k) x))
      | VStr s \<Rightarrow> Inr (VStr (concat (replicate (nat k) s)))
      | VList xs \<Rightarrow> Inr (VList (concat (replicate (nat k) xs)))
      | _ \<Rightarrow> Inl TypeError)"

definition int_truediv :: "int \<Rightarrow> int \<Rightarrow> exn + pyval" where
  \<comment> \<open>\<open>i / k\<close> on two \<open>int\<close>s, \<open>k\<close> not zero: the quotient correctly rounded\<close>
  "int_truediv i k =
     (case round_double (of_int i / of_int k) of
        Fin a \<Rightarrow> Inr (VFloat (Fin a))
      | _ \<Rightarrow> Inl OverflowError)"

definition py_truediv_int :: "pyval \<Rightarrow> int \<Rightarrow> exn + pyval" where
  \<comment> \<open>\<open>v / k\<close> for a positive \<open>int\<close> literal \<open>k\<close>\<close>
  "py_truediv_int v k =
     (case v of
        VBool b \<Rightarrow> int_truediv (of_bool b) k
      | VInt i \<Rightarrow> int_truediv i k
      | VFloat x \<Rightarrow> Inr (VFloat (float_op (\<lambda>a. a / of_int k) x))
      | _ \<Rightarrow> Inl TypeError)"

definition py_add_int :: "pyval \<Rightarrow> int \<Rightarrow> exn + pyval" where
  \<comment> \<open>\<open>v + k\<close> for a positive \<open>int\<close> literal \<open>k\<close>\<close>
  "py_add_int v k =
     (case v of
        VBool b \<Rightarrow> Inr (VInt (of_bool b + k))
      | VInt i \<Rightarrow> Inr (VInt (i + k))
      | VFloat x \<Rightarrow> Inr (VFloat (float_op (\<lambda>a. a + of_int k) x))
      | _ \<Rightarrow> Inl TypeError)"

definition py_mul_float :: "pyval \<Rightarrow> rat \<Rightarrow> exn + pyval" where
  \<comment> \<open>\<open>v * c\<close> for a positive \<open>float\<close> literal of value \<open>c\<close>\<close>
  "py_mul_float v c =
     (case v of
        VBool b \<Rightarrow> bnd (int_to_float (of_bool b)) (\<lambda>x. Inr (VFloat (float_op (\<lambda>a. a * c) x)))
      | VInt i \<Rightarrow> bnd (int_to_float i) (\<lambda>x. Inr (VFloat (float_op (\<lambda>a. a * c) x)))
      | VFloat x \<Rightarrow> Inr (VFloat (float_op (\<lambda>a. a * c) x))
      | _ \<Rightarrow> Inl TypeError)"

definition float_literal :: "rat \<Rightarrow> rat" where
  \<comment> \<open>the value of a decimal \<open>float\<close> literal in the range of the finite doubles\<close>
  "float_literal q = (case round_double q of Fin a \<Rightarrow> a | _ \<Rightarrow> 0)"

definition py_getitem :: "pyval \<Rightarrow> pystr \<Rightarrow> exn + pyval" where
  \<comment> \<open>\<open>v[key]\<close> for a \<open>str\<close> key\<close>
  "py_getitem v key =
     (case v of
        VDict kvs \<Rightarrow> (case map_of kvs key of None \<Rightarrow> Inl KeyError | Some x \<Rightarrow> Inr x)
      | _ \<Rightarrow> Inl TypeError)"

definition py_getitem0 :: "pyval \<Rightarrow> exn + pyval" where
  \<comment> \<open>\<open>v[0]\<close>; a \<open>dict\<close> made from a JSON object has no key \<open>0\<close>\<close>
  "py_getitem0 v =
     (case v of
        VList xs \<Rightarrow> (case xs of [] \<Rightarrow> Inl IndexError | x # _ \<Rightarrow> Inr x)
      | VStr s \<Rightarrow> (case s of [] \<Rightarrow> Inl IndexError | c # _ \<Rightarrow> Inr (VStr [c]))
      | VDict kvs \<Rightarrow> Inl KeyError
      | _ \<Rightarrow> Inl TypeError)"

definition py_slice2 :: "exn \<Rightarrow> pyval \<Rightarrow> exn + pyval" where
  \<comment> \<open>\<open>v[:2]\<close>; on a \<open>dict\<close> the slice is looked up as a key, which raises \<open>TypeError\<close>
      (unhashable) before Python 3.12 and \<open>KeyError\<close> from 3.12 on: the first argument\<close>
  "py_slice2 dict_slice_error v =
     (case v of
        VList xs \<Rightarrow> Inr (VList (take 2 xs))
      | VStr s \<Rightarrow> Inr (VStr (take 2 s))
      | VDict kvs \<Rightarrow> Inl dict_slice_error
      | _ \<Rightarrow> Inl TypeError)"

definition py_add_str :: "pyval \<Rightarrow> pystr \<Rightarrow> exn + pyval" where
  \<comment> \<open>\<open>v + s\<close> for a \<open>str\<close> literal \<open>s\<close>\<close>
  "py_add_str v s = (case v of VStr a \<Rightarrow> Inr (VStr (a @ s)) | _ \<Rightarrow> Inl TypeError)"

definition str_add :: "pystr \<Rightarrow> pyval \<Rightarrow> exn + pystr" where
  \<comment> \<open>\<open>s + v\<close> for a \<open>str\<close> \<open>s\<close>\<close>
  "str_add s v = (case v of VStr a \<Rightarrow> Inr (s @ a) | _ \<Rightarrow> Inl TypeError)"

definition py_iter :: "pyval \<Rightarrow> exn + pyval list" where
  \<comment> \<open>the items that \<open>for period in v\<close> runs over\<close>
  "py_iter v =
     (case v of
        VList xs \<Rightarrow> Inr xs
      | VStr s \<Rightarrow> Inr (map (\<lambda>c. VStr [c]) s)
      | VDict kvs \<Rightarrow> Inr (map (\<lambda>kv. VStr (fst kv)) kvs)
      | _ \<Rightarrow> Inl TypeError)"

section \<open>The weather client\<close>

text \<open>
  What the script does not define is a parameter of the model, gathered in \<open>env\<close>:
  \<^item> \<open>http_get n url\<close> is what the \<open>n\<close>-th call \<open>httpx.get(url, headers=...)\<close> of a run
    does for the value passed as \<open>url\<close>: it raises or returns a response;
  \<^item> a response says what \<open>raise_for_status()\<close> raises, if anything, and what
    \<open>json()\<close> raises or returns;
  \<^item> \<open>request_exception\<close> is the evaluation of \<open>httpx.exceptions.RequestException\<close> in
    the first handler: \<open>None\<close> when the attribute lookup fails, as it does with the httpx
    library as published, which has no such attribute; otherwise the test whether an
    exception is an instance of that class;
  \<^item> \<open>float_str\<close> is the formatting of a \<open>float\<close> in an f-string, \<open>dict_slice_error\<close>
    the exception of slicing a \<open>dict\<close>, \<open>unicode\<close> the Unicode database;
  \<^item> \<open>now_local\<close> is \<open>datetime.now(TIMEZONE).strftime("%Y-%m-%d %H:%M:%S")\<close>, and
    \<open>llm_prompt prompt urls\<close> is the text of \<open>llm.get_model("gpt-4o-mini").prompt(...)\<close>
    for the prompt and the attachment URLs, or the exception it raises.
  Messages printed to the standard output are not modelled.
\<close>

record response =
  raise_for_status :: "exn option"
  json :: "exn + pyval"

record env =
  http_get :: "nat \<Rightarrow> pyval \<Rightarrow> exn + response"
  request_exception :: "(exn \<Rightarrow> bool) option"
  float_str :: "pyfloat \<Rightarrow> pystr"
  dict_slice_error :: exn
  unicode :: unicode_db
  now_local :: pystr
  llm_prompt :: "pystr \<Rightarrow> pystr list \<Rightarrow> exn + pystr"

record location =
  name :: pyval
  state :: pyval
  latitude :: pyfloat
  longitude :: pyfloat

record current_conditions =
  timestamp :: pyval
  temperature_f :: pyval
  temperature_c :: pyval
  humidity :: pyval
  wind_speed_mph :: pyval
  wind_direction :: pyval
  description :: pyval

record weather_data =
  location :: location
  current_conditions :: current_conditions
  forecast :: pyval

definition celsius_to_fahrenheit :: "pyval \<Rightarrow> exn + pyval" where
  \<comment> \<open>\<open>None if celsius is None else (celsius * 9 / 5) + 32\<close>\<close>
  "celsius_to_fahrenheit celsius =
     (if celsius = VNone then Inr VNone
      else bnd (py_mul_int celsius 9) (\<lambda>x.
           bnd (py_truediv_int x 5) (\<lambda>y.
           py_add_int y 32)))"

definition ms_to_mph :: "pyval \<Rightarrow> exn + pyval" where
  \<comment> \<open>\<open>None if meters_per_second is None else meters_per_second * 2.237\<close>\<close>
  "ms_to_mph meters_per_second =
     (if meters_per_second = VNone then Inr VNone
      else py_mul_float meters_per_second (float_literal (2237 / 1000)))"

definition base_url :: pystr where
  "base_url = ascii ''https://api.weather.gov''"

definition get_json :: "env \<Rightarrow> nat \<Rightarrow> pyval \<Rightarrow> exn + pyval" where
  \<comment> \<open>\<open>r = httpx.get(url, headers=self.headers); r.raise_for_status(); r.json()\<close>\<close>
  "get_json env n url =
     bnd (http_get env n url) (\<lambda>r.
       case raise_for_status r of
         Some e \<Rightarrow> Inl e
       | None \<Rightarrow> json r)"

definition fetch_responses :: "env \<Rightarrow> pyfloat \<Rightarrow> pyfloat \<Rightarrow> exn + pyval \<times> pyval \<times> pyval" where
  \<comment> \<open>lines 49 to 75: the four requests; the result is
      \<open>(point_data, forecast_data, observation_data)\<close>\<close>
  "fetch_responses env lat lon =
     (let point_url = base_url @ ascii ''/points/'' @ float_str env lat @ ascii '',''
                        @ float_str env lon
      in
      bnd (get_json env 0 (VStr point_url)) (\<lambda>point_data.
      bnd (py_getitem point_data (ascii ''properties'')) (\<lambda>p1.
      bnd (py_getitem p1 (ascii ''forecast'')) (\<lambda>forecast_url.
      bnd (py_getitem point_data (ascii ''properties'')) (\<lambda>p2.
      bnd (py_getitem p2 (ascii ''observationStations'')) (\<lambda>station_url.
      bnd (get_json env 1 forecast_url) (\<lambda>forecast_data.
      bnd (get_json env 2 station_url) (\<lambda>stations_data.
      bnd (py_getitem stations_data (ascii ''features'')) (\<lambda>features.
      bnd (py_getitem0 features) (\<lambda>station.
      bnd (py_getitem station (ascii ''id'')) (\<lambda>station_id.
      bnd (py_add_str station_id (ascii ''/observations/latest'')) (\<lambda>nearest_station_url.
      bnd (get_json env 3 nearest_station_url) (\<lambda>observation_data.
      Inr (point_data, forecast_data, observation_data))))))))))))))"

definition relative_location :: "pyval \<Rightarrow> pystr \<Rightarrow> exn + pyval" where
  \<comment> \<open>\<open>point_data["properties"]["relativeLocation"]["properties"][key]\<close>\<close>
  "relative_location point_data key =
     bnd (py_getitem point_data (ascii ''properties'')) (\<lambda>p.
     bnd (py_getitem p (ascii ''relativeLocation'')) (\<lambda>r.
     bnd (py_getitem r (ascii ''properties'')) (\<lambda>q.
     py_getitem q key)))"

definition format_location :: "pyfloat \<Rightarrow> pyfloat \<Rightarrow> pyval \<Rightarrow> exn + location" where
  \<comment> \<open>lines 79 to 88\<close>
  "format_location lat lon point_data =
     bnd (relative_location point_data (ascii ''city'')) (\<lambda>city.
     bnd (relative_location point_data (ascii ''state'')) (\<lambda>st.
     Inr \<lparr>name = city, state = st, latitude = lat, longitude = lon\<rparr>))"

definition observed :: "pyval \<Rightarrow> pystr \<Rightarrow> exn + pyval" where
  \<comment> \<open>\<open>observation_data["properties"][key]\<close>\<close>
  "observed observation_data key =
     bnd (py_getitem observation_data (ascii ''properties'')) (\<lambda>p. py_getitem p key)"

definition observed_value :: "pyval \<Rightarrow> pystr \<Rightarrow> exn + pyval" where
  \<comment> \<open>\<open>observation_data["properties"][key]["value"]\<close>\<close>
  "observed_value observation_data key =
     bnd (observed observation_data key) (\<lambda>q. py_getitem q (ascii ''value''))"

definition format_conditions :: "pyval \<Rightarrow> exn + current_conditions" where
  \<comment> \<open>lines 89 to 107, the entries evaluated in the order of the dict display\<close>
  "format_conditions observation_data =
     bnd (observed observation_data (ascii ''timestamp'')) (\<lambda>ts.
     bnd (observed_value observation_data (ascii ''temperature'')) (\<lambda>t1.
     bnd (celsius_to_fahrenheit t1) (\<lambda>tf.
     bnd (observed_value observation_data (ascii ''temperature'')) (\<lambda>tc.
     bnd (observed_value observation_data (ascii ''relativeHumidity'')) (\<lambda>h.
     bnd (observed_value observation_data (ascii ''windSpeed'')) (\<lambda>w1.
     bnd (ms_to_mph w1) (\<lambda>ws.
     bnd (observed_value observation_data (ascii ''windDirection'')) (\<lambda>wd.
     bnd (observed observation_data (ascii ''textDescription'')) (\<lambda>d.
     Inr \<lparr>timestamp = ts, temperature_f = tf, temperature_c = tc, humidity = h,
          wind_speed_mph = ws, wind_direction = wd, description = d\<rparr>)))))))))"

definition format_forecast :: "env \<Rightarrow> pyval \<Rightarrow> exn + pyval" where
  \<comment> \<open>\<open>forecast_data["properties"]["periods"][:2]\<close>\<close>
  "format_forecast env forecast_data =
     bnd (py_getitem forecast_data (ascii ''properties'')) (\<lambda>p.
     bnd (py_getitem p (ascii ''periods'')) (\<lambda>periods.
     py_slice2 (dict_slice_error env) periods))"

definition format_response ::
  "env \<Rightarrow> pyfloat \<Rightarrow> pyfloat \<Rightarrow> pyval \<Rightarrow> pyval \<Rightarrow> pyval \<Rightarrow> exn + weather_data" where
  \<comment> \<open>lines 78 to 111\<close>
  "format_response env lat lon point_data forecast_data observation_data =
     bnd (format_location lat lon point_data) (\<lambda>loc.
     bnd (format_conditions observation_data) (\<lambda>cc.
     bnd (format_forecast env forecast_data) (\<lambda>fc.
     Inr \<lparr>location = loc, current_conditions = cc, forecast = fc\<rparr>)))"

definition try_body :: "env \<Rightarrow> pyfloat \<Rightarrow> pyfloat \<Rightarrow> exn + weather_data" where
  \<comment> \<open>the body of the \<open>try\<close> statement, lines 48 to 113\<close>
  "try_body env lat lon =
     bnd (fetch_responses env lat lon) (\<lambda>(point_data, forecast_data, observation_data).
       format_response env lat lon point_data forecast_data observation_data)"

definition parsing_error :: "exn \<Rightarrow> bool" where
  \<comment> \<open>an instance of \<open>(KeyError, IndexError, json.JSONDecodeError)\<close>\<close>
  "parsing_error e = (e = KeyError \<or> e = IndexError \<or> e = JSONDecodeError)"

definition get_weather_data :: "env \<Rightarrow> pyfloat \<Rightarrow> pyfloat \<Rightarrow> exn + weather_data option" where
  \<comment> \<open>\<open>Inr None\<close> is \<open>return None\<close>, \<open>Inl e\<close> an exception that leaves the method.  When
      the body raises, the first handler evaluates its class expression and tests the
      exception against it; then the second handler is tried\<close>
  "get_weather_data env lat lon =
     (case try_body env lat lon of
        Inr weather_data \<Rightarrow> Inr (Some weather_data)
      | Inl e \<Rightarrow>
          (case request_exception env of
             None \<Rightarrow> Inl AttributeError
           | Some is_request_exception \<Rightarrow>
               if is_request_exception e then Inr None
               else if parsing_error e then Inr None
               else Inl e))"

section \<open>The script\<close>

definition PROMPT :: pystr where
  \<comment> \<open>the text of lines 9 to 19, code points outside printable ASCII written as numbers\<close>
  "PROMPT =
       [10]
       @ ascii ''Review these two images and assess the weather, looking for where any ''
       @ ascii ''fog is, the clarity of the day, and more. Both images are views of Boston ''
       @ ascii ''and the surrounding area, taken from the Blue Hill Observatory.''
       @ [10, 10]
       @ ascii ''Considering the weather forecast and the images, please write a weather ''
       @ ascii ''report for Boston capturing the current conditions; the expected weather ''
       @ ascii ''for the day; how pleasant or unpleasant it looks; how one might best dress ''
       @ ascii ''for the weather; and what one might do given the conditions, day, and ''
       @ ascii ''time. Remember: you will generate this report many times a day, your recommended ''
       @ ascii ''activities should be relatively mundane and not too cliche or stereotypical.''
       @ [10, 10]
       @ ascii ''Do not use headers or other formatting in your response. Just write one ''
       @ ascii ''to two single paragraphs that are elegant, don''
       @ [39]
       @ ascii ''t use bullet points or exclamation marks, don''
       @ [39]
       @ ascii ''t mention the images as input, and use emotive words more often than numbers ''
       @ ascii ''and figures ''
       @ [226, 8364, 8220]
       @ ascii '' but don''
       @ [39]
       @ ascii ''t be flowery You write like a novelist describing the scene, producing ''
       @ ascii ''a work suitable for someone calmly reading it on a classical radio station ''
       @ ascii ''between songs. With a style somewhere between Jack Kerouac and J. Peterman.''
       @ [10, 10]
       @ ascii ''Remember to keep the response under 500 words.''
       @ [10, 10]
       @ ascii ''After the weather report, please put an HTML color code that best represents ''
       @ ascii ''the weather forecast, time of day, and the images.''
       @ [10]"

definition LAT :: pyfloat where
  "LAT = round_double (42287 / 1000)"

definition LON :: pyfloat where
  "LON = round_double (- 71133 / 1000)"

definition attachments :: "pystr list" where
  "attachments =
     [ascii ''https://hazecam.net/images/main/bluehill_left.jpg'',
      ascii ''https://hazecam.net/images/main/bluehill_right.jpg'']"

text \<open>
  The state the script acts on: the content of \<open>weather_report.json\<close> (\<open>None\<close> when the
  file does not exist), held as the record that \<open>json.dump\<close> serialises, and the calls
  made to the generation service, each with its prompt and attachment URLs.
\<close>

record output_record =
  forecast_data :: weather_data
  weather_report :: pystr
  color_code :: "pystr option"
  result_timestamp :: pystr

record world =
  output_file :: "output_record option"
  generation_calls :: "(pystr \<times> pystr list) list"

fun add_periods :: "pystr \<Rightarrow> pyval list \<Rightarrow> exn + pystr" where
  \<comment> \<open>the loop of lines 138 to 141\<close>
  "add_periods forecasts [] = Inr forecasts"
| "add_periods forecasts (period # rest) =
     bnd (py_getitem period (ascii ''name'')) (\<lambda>n.
     bnd (str_add (forecasts @ [10] @ ascii '' - '') n) (\<lambda>f1.
     bnd (py_getitem period (ascii ''detailedForecast'')) (\<lambda>d.
     bnd (str_add (f1 @ ascii '': '') d) (\<lambda>f2.
     add_periods f2 rest))))"

definition build_prompt :: "env \<Rightarrow> weather_data \<Rightarrow> exn + pystr" where
  \<comment> \<open>lines 137 to 147\<close>
  "build_prompt env data =
     bnd (py_iter (forecast data)) (\<lambda>periods.
     bnd (add_periods
            (ascii ''Below is the weather forecast for Boston, Massachusetts: '' @ [10])
            periods) (\<lambda>forecasts.
     Inr (forecasts @ [10, 10] @ ascii ''Current local time: '' @ now_local env @ PROMPT)))"

definition main :: "env \<Rightarrow> world \<Rightarrow> exn option \<times> world" where
  \<comment> \<open>lines 133 to 178: the exception that ends the run, if any, and the state after it\<close>
  "main env w =
     (case get_weather_data env LAT LON of
        Inl e \<Rightarrow> (Some e, w)
      | Inr None \<Rightarrow> (None, w)
      | Inr (Some data) \<Rightarrow>
          (case build_prompt env data of
             Inl e \<Rightarrow> (Some e, w)
           | Inr forecasts \<Rightarrow>
               let w1 = w\<lparr>generation_calls := generation_calls w @ [(forecasts, attachments)]\<rparr>
               in case llm_prompt env forecasts attachments of
                    Inl e \<Rightarrow> (Some e, w1)
                  | Inr response \<Rightarrow>
                      (None,
                       w1\<lparr>output_file := Some
                          \<lparr>forecast_data = data,
                           weather_report = fst (extract_color (unicode env) response),
                           color_code = snd (extract_color (unicode env) response),
                           result_timestamp = now_local env\<rparr>\<rparr>)))"

section \<open>Sample upstream responses\<close>

text \<open>
  Concrete responses of the weather service and concrete environments, for evaluating the
  model: the four documents of a well-formed exchange, and variants of them.
\<close>

definition ok_response :: "pyval \<Rightarrow> response" where
  "ok_response v = \<lparr>raise_for_status = None, json = Inr v\<rparr>"

definition sample_point :: pyval where
  "sample_point =
     VDict [(ascii ''properties'', VDict
       [(ascii ''forecast'', VStr (ascii ''https://api.weather.gov/gridpoints/BOX/70,85/forecast'')),
        (ascii ''observationStations'',
           VStr (ascii ''https://api.weather.gov/gridpoints/BOX/70,85/stations'')),
        (ascii ''relativeLocation'', VDict [(ascii ''properties'', VDict
           [(ascii ''city'', VStr (ascii ''Boston'')), (ascii ''state'', VStr (ascii ''MA''))])])])]"

definition sample_period :: "string \<Rightarrow> string \<Rightarrow> pyval" where
  "sample_period n d =
     VDict [(ascii ''name'', VStr (ascii n)), (ascii ''detailedForecast'', VStr (ascii d))]"

definition sample_periods :: "pyval list" where
  "sample_periods =
     [sample_period ''Today'' ''Sunny.'', sample_period ''Tonight'' ''Clear.'',
      sample_period ''Thursday'' ''Rain.'']"

definition sample_forecast :: pyval where
  "sample_forecast = VDict [(ascii ''properties'', VDict [(ascii ''periods'', VList sample_periods)])]"

definition sample_stations :: "pyval list \<Rightarrow> pyval" where
  "sample_stations features = VDict [(ascii ''features'', VList features)]"

definition sample_station :: pyval where
  "sample_station = VDict [(ascii ''id'', VStr (ascii ''https://api.weather.gov/stations/KBOS''))]"

definition sample_observation :: "(pystr \<times> pyval) list \<Rightarrow> pyval" where
  "sample_observation props = VDict [(ascii ''properties'', VDict props)]"

definition null_value :: pyval where
  "null_value = VDict [(ascii ''unitCode'', VStr (ascii ''wmoUnit:degC'')), (ascii ''value'', VNone)]"

definition null_properties :: "(pystr \<times> pyval) list" where
  \<comment> \<open>an observation in which every leaf field is present and carries no value\<close>
  "null_properties =
     [(ascii ''timestamp'', VNone),
      (ascii ''textDescription'', VNone),
      (ascii ''temperature'', null_value),
      (ascii ''relativeHumidity'', null_value),
      (ascii ''windSpeed'', null_value),
      (ascii ''windDirection'', null_value)]"

definition published_httpx :: "(exn \<Rightarrow> bool) option" where
  \<comment> \<open>the evaluation of \<open>httpx.exceptions.RequestException\<close> with the httpx library as
      it is published: the package has no attribute \<open>exceptions\<close> (its exception classes
      are \<open>httpx.HTTPError\<close>, \<open>httpx.RequestError\<close>, \<open>httpx.HTTPStatusError\<close>;
      \<open>RequestException\<close> is a name of the requests library), so the lookup raises
      \<open>AttributeError\<close>\<close>
  "published_httpx = None"

definition resolving_httpx :: "(exn \<Rightarrow> bool) option" where
  \<comment> \<open>the evaluation in a library in which the name denotes the class of the transport
      and status errors\<close>
  "resolving_httpx = Some (\<lambda>e. e = TransportError \<or> e = HTTPStatusError)"

definition sample_env ::
  "(exn \<Rightarrow> bool) option \<Rightarrow> pyval \<Rightarrow> pyval \<Rightarrow> pyval \<Rightarrow> pyval \<Rightarrow> env" where
  \<comment> \<open>the four requests succeed with the given documents; the first argument is the
      evaluation of the first handler's class; the model answers with a fixed text\<close>
  "sample_env h point fc stations obs =
     \<lparr>http_get = (\<lambda>n url. Inr (ok_response
          (if n = 0 then point else if n = 1 then fc else if n = 2 then stations else obs))),
      request_exception = h,
      float_str = (\<lambda>x. ascii ''0.0''),
      dict_slice_error = TypeError,
      unicode = no_unicode,
      now_local = ascii ''2024-11-05 08:00:00'',
      llm_prompt = (\<lambda>prompt urls. Inr (ascii ''Sunny and bright. #1E90FF''))\<rparr>"

definition empty_world :: world where
  "empty_world = \<lparr>output_file = None, generation_calls = []\<rparr>"

definition no_temperature :: "(pystr \<times> pyval) list" where
  \<comment> \<open>the same observation without the key \<open>temperature\<close>\<close>
  "no_temperature = filter (\<lambda>kv. fst kv \<noteq> ascii ''temperature'') null_properties"

definition all_null_snapshot :: weather_data where
  \<comment> \<open>the snapshot of the well-formed exchange whose observation carries no values\<close>
  "all_null_snapshot =
     \<lparr>location = \<lparr>name = VStr (ascii ''Boston''), state = VStr (ascii ''MA''),
                  latitude = LAT, longitude = LON\<rparr>,
      current_conditions = \<lparr>timestamp = VNone, temperature_f = VNone, temperature_c = VNone,
                            humidity = VNone, wind_speed_mph = VNone, wind_direction = VNone,
                            description = VNone\<rparr>,
      forecast = VList [sample_period ''Today'' ''Sunny.'', sample_period ''Tonight'' ''Clear.'']\<rparr>"

definition null_env :: env where
  "null_env =
     sample_env published_httpx sample_point sample_forecast (sample_stations [sample_station])
       (sample_observation null_properties)"

definition no_stations_env :: env where
  \<comment> \<open>the station list has no features\<close>
  "no_stations_env =
     sample_env published_httpx sample_point sample_forecast (sample_stations [])
       (sample_observation null_properties)"

definition no_stations_resolving_env :: env where
  \<comment> \<open>the same exchange with a library in which the handler's class exists\<close>
  "no_stations_resolving_env =
     sample_env resolving_httpx sample_point sample_forecast (sample_stations [])
       (sample_observation null_properties)"

definition no_temperature_env :: env where
  "no_temperature_env =
     sample_env published_httpx sample_point sample_forecast (sample_stations [sample_station])
       (sample_observation no_temperature)"

definition no_temperature_resolving_env :: env where
  "no_temperature_resolving_env =
     sample_env resolving_httpx sample_point sample_forecast (sample_stations [sample_station])
       (sample_observation no_temperature)"

definition no_forecast_url_point :: pyval where
  \<comment> \<open>a grid-point document without the key \<open>forecast\<close>\<close>
  "no_forecast_url_point =
     VDict [(ascii ''properties'', VDict
       [(ascii ''observationStations'',
           VStr (ascii ''https://api.weather.gov/gridpoints/BOX/70,85/stations''))])]"

definition no_forecast_url_env :: env where
  "no_forecast_url_env =
     sample_env published_httpx no_forecast_url_point sample_forecast
       (sample_stations [sample_station]) (sample_observation null_properties)"

definition null_properties_point :: pyval where
  \<comment> \<open>a grid-point document whose \<open>properties\<close> is null\<close>
  "null_properties_point = VDict [(ascii ''properties'', VNone)]"

definition wrong_shape_resolving_env :: env where
  "wrong_shape_resolving_env =
     sample_env resolving_httpx null_properties_point sample_forecast
       (sample_stations [sample_station]) (sample_observation null_properties)"

section \<open>Properties of the colour-code extraction\<close>

lemma is_hex_word: "is_hex c \<Longrightarrow> is_word u c"
  by (auto simp: is_hex_def is_word_def)




lemma takeWhile_length_ge:
  "n \<le> length (takeWhile P xs) \<longleftrightarrow> n \<le> length xs \<and> list_all P (take n xs)"
proof (induction xs arbitrary: n)
  case Nil
  then show ?case by simp
next
  case (Cons x xs)
  show ?case
  proof (cases n)
    case 0
    then show ?thesis by simp
  next
    case (Suc m)
    then show ?thesis using Cons.IH [of m] by auto
  qed
qed

lemma hex3_run: "hex3 r \<longleftrightarrow> 3 \<le> length (takeWhile is_hex r)"
  by (simp add: hex3_def takeWhile_length_ge)

lemma take_6_split: "take 6 r = take 3 r @ take 3 (drop 3 r)"
  using take_add [of 3 3 r] by simp

lemma run_nth_hex:
  assumes "n < length (takeWhile is_hex r)"
  shows "n < length r" and "is_hex (r ! n)"
proof -
  show "n < length r"
    using assms length_takeWhile_le [of is_hex r] by simp
  have "takeWhile is_hex r ! n \<in> set (takeWhile is_hex r)"
    using assms by simp
  then show "is_hex (r ! n)"
    using assms by (auto simp: takeWhile_nth dest: set_takeWhileD)
qed

lemma boundary_after_hex:
  assumes "n \<le> length (takeWhile is_hex r)" and "0 < n"
  shows "at_boundary u (35 # take n r) (drop n r) \<longleftrightarrow>
           (drop n r = [] \<or> \<not> is_word u (hd (drop n r)))"
proof (cases n)
  case 0
  then show ?thesis using assms by simp
next
  case (Suc m)
  then have m: "m < length (takeWhile is_hex r)" using assms by simp
  have len: "m < length r" and hx: "is_hex (r ! m)"
    using run_nth_hex [OF m] by simp_all
  have "take n r \<noteq> []" using Suc len by auto
  moreover have "last (take n r) = r ! m"
    using Suc len by (simp add: take_Suc_conv_app_nth)
  ultimately show ?thesis
    using hx by (auto simp: at_boundary_def is_hex_word)
qed

lemma inside_run_no_boundary:
  assumes "n < length (takeWhile is_hex r)"
  shows "drop n r \<noteq> [] \<and> is_word u (hd (drop n r))"
  using run_nth_hex [OF assms] by (simp add: hd_drop_conv_nth is_hex_word)

lemma match_here_run:
  "match_here u (35 # r) =
     (let h = takeWhile is_hex r; t = dropWhile is_hex r
      in if (length h = 3 \<or> length h = 6) \<and> (t = [] \<or> \<not> is_word u (hd t))
         then Some (35 # h) else None)"
proof -
  define h where "h = takeWhile is_hex r"
  define t where "t = dropWhile is_hex r"
  have h3: "hex3 r \<longleftrightarrow> 3 \<le> length h" by (simp add: hex3_run h_def)
  have h6: "hex3 r \<and> hex3 (drop 3 r) \<longleftrightarrow> 6 \<le> length h"
  proof -
    have "hex3 r \<and> hex3 (drop 3 r) \<longleftrightarrow> 6 \<le> length r \<and> list_all is_hex (take 6 r)"
      by (auto simp: hex3_def take_6_split)
    then show ?thesis by (simp add: takeWhile_length_ge h_def)
  qed
  have at_end: "length h = n \<Longrightarrow> take n r = h \<and> drop n r = t" for n
    unfolding h_def t_def
    by (metis append_eq_conv_conj takeWhile_dropWhile_id)
  have b: "n \<le> length h \<Longrightarrow> 0 < n \<Longrightarrow>
           at_boundary u (35 # take n r) (drop n r) \<longleftrightarrow>
             (drop n r = [] \<or> \<not> is_word u (hd (drop n r)))" for n
    unfolding h_def by (rule boundary_after_hex)
  have nb: "n < length h \<Longrightarrow> drop n r \<noteq> [] \<and> is_word u (hd (drop n r))" for n
    unfolding h_def by (rule inside_run_no_boundary)
  have m: "match_here u (35 # r) =
      (if 6 \<le> length h \<and> at_boundary u (35 # take 6 r) (drop 6 r) then Some (35 # take 6 r)
       else if 3 \<le> length h \<and> at_boundary u (35 # take 3 r) (drop 3 r) then Some (35 # take 3 r)
       else None)"
  proof -
    have "match_here u (35 # r) =
      (if (hex3 r \<and> hex3 (drop 3 r)) \<and> at_boundary u (35 # take 6 r) (drop 6 r)
         then Some (35 # take 6 r)
       else if hex3 r \<and> at_boundary u (35 # take 3 r) (drop 3 r) then Some (35 # take 3 r)
       else None)"
      by (simp add: match_here_def)
    moreover have "(3 \<le> length h \<and> hex3 (drop 3 r)) = (6 \<le> length h)"
      using h6 h3 by simp
    ultimately show ?thesis by (simp only: h3)
  qed
  consider "length h < 3" | "length h = 3" | "length h = 4 \<or> length h = 5"
    | "length h = 6" | "6 < length h" by linarith
  then have "match_here u (35 # r) =
     (if (length h = 3 \<or> length h = 6) \<and> (t = [] \<or> \<not> is_word u (hd t))
         then Some (35 # h) else None)"
  proof cases
    case 1
    then show ?thesis by (simp add: m)
  next
    case 2
    then show ?thesis using at_end [of 3] b [of 3] by (simp add: m)
  next
    case 3
    then show ?thesis using b [of 3] nb [of 3] by (auto simp: m)
  next
    case 4
    then show ?thesis using at_end [of 6] b [of 6] b [of 3] nb [of 3] by (auto simp: m)
  next
    case 5
    then show ?thesis using b [of 6] nb [of 6] b [of 3] nb [of 3] by (auto simp: m)
  qed
  then show ?thesis by (simp add: h_def t_def Let_def)
qed

lemma match_here_not_hash: "c \<noteq> 35 \<Longrightarrow> match_here u (c # r) = None"
  by (simp add: match_here_def)

lemma match_here_Some:
  assumes "match_here u s = Some m"
  shows "is_color_code m"
    and "\<exists>t. s = m @ t \<and> (t = [] \<or> \<not> is_word u (hd t))"
proof -
  obtain r where s: "s = 35 # r"
    using assms by (cases s) (auto simp: match_here_def split: if_splits)
  define h where "h = takeWhile is_hex r"
  define t where "t = dropWhile is_hex r"
  have r: "r = h @ t" by (simp add: h_def t_def)
  have hh: "list_all is_hex h"
    unfolding h_def list_all_iff by (auto dest: set_takeWhileD)
  from assms have c: "(length h = 3 \<or> length h = 6) \<and> (t = [] \<or> \<not> is_word u (hd t))"
    and m: "m = 35 # h"
    unfolding s match_here_run Let_def h_def t_def by (auto split: if_splits)
  show "is_color_code m" using c hh by (simp add: m is_color_code_def)
  show "\<exists>t. s = m @ t \<and> (t = [] \<or> \<not> is_word u (hd t))"
    using c by (intro exI [of _ t]) (simp add: s m r)
qed

lemma re_search_from_Some:
  assumes "re_search_from u i s = Some (j, m)"
  shows "i \<le> j \<and> j - i < length s \<and> match_here u (drop (j - i) s) = Some m \<and>
         (\<forall>k < j - i. match_here u (drop k s) = None)"
  using assms
proof (induction s arbitrary: i)
  case Nil
  then show ?case by simp
next
  case (Cons c cs)
  show ?case
  proof (cases "match_here u (c # cs)")
    case (Some m')
    then show ?thesis using Cons.prems by simp
  next
    case None
    then have "re_search_from u (Suc i) cs = Some (j, m)" using Cons.prems by simp
    from Cons.IH [OF this]
    have ih: "Suc i \<le> j" "j - Suc i < length cs"
      "match_here u (drop (j - Suc i) cs) = Some m"
      "\<forall>k < j - Suc i. match_here u (drop k cs) = None" by simp_all
    have eq: "j - i = Suc (j - Suc i)" using ih(1) by simp
    have "\<forall>k < j - i. match_here u (drop k (c # cs)) = None"
    proof (intro allI impI)
      fix k assume "k < j - i"
      then show "match_here u (drop k (c # cs)) = None"
        using None ih(4) eq by (cases k) auto
    qed
    then show ?thesis using ih eq by simp
  qed
qed

lemma re_search_from_None:
  "re_search_from u i s = None \<longleftrightarrow> (\<forall>k < length s. match_here u (drop k s) = None)"
proof (induction s arbitrary: i)
  case Nil
  then show ?case by simp
next
  case (Cons c cs)
  show ?case
  proof (cases "match_here u (c # cs)")
    case (Some m')
    then show ?thesis by (auto intro: exI [of _ 0])
  next
    case None
    have "(\<forall>k < length (c # cs). match_here u (drop k (c # cs)) = None) \<longleftrightarrow>
          (\<forall>k < length cs. match_here u (drop k cs) = None)"
      using None by (auto simp: less_Suc_eq_0_disj)
    then show ?thesis using None Cons.IH [of "Suc i"] by simp
  qed
qed

declare replace_empty.simps [simp del]

lemma replace_empty_Nil: "replace_empty [] old = []"
  by (simp add: replace_empty.simps)

lemma replace_empty_prefix:
  "old \<noteq> [] \<Longrightarrow> replace_empty (old @ s) old = replace_empty s old"
  by (subst replace_empty.simps) simp

lemma replace_empty_Cons:
  "old \<noteq> [] \<Longrightarrow> \<not> prefix old (x # s) \<Longrightarrow>
   replace_empty (x # s) old = x # replace_empty s old"
  by (subst replace_empty.simps) simp

lemma py_join_Cons: "ps \<noteq> [] \<Longrightarrow> py_join sep (p # ps) = p @ sep @ py_join sep ps"
  by (cases ps) simp_all

lemma py_join_prefix: "prefix p (py_join sep (p # ps))"
  by (cases ps) simp_all

lemma replace_empty_pieces:
  assumes "old \<noteq> []"
  shows "\<exists>ps. ps \<noteq> [] \<and> s = py_join old ps \<and> (\<forall>p \<in> set ps. \<not> sublist old p) \<and>
              replace_empty s old = concat ps"
  using assms
proof (induction s old rule: replace_empty.induct)
  case (1 s old)
  show ?case
  proof (cases "s = []")
    case True
    then show ?thesis
      using "1.prems" by (intro exI [of _ "[[]]"]) (simp add: replace_empty_Nil)
  next
    case False
    show ?thesis
    proof (cases "prefix old s")
      case True
      then obtain t where s: "s = old @ t" by (auto simp: prefix_def)
      from "1.IH"(1) [OF _ True] False "1.prems"
      obtain ps where ps: "ps \<noteq> []" "drop (length old) s = py_join old ps"
        "\<forall>p \<in> set ps. \<not> sublist old p" "replace_empty (drop (length old) s) old = concat ps"
        by auto
      show ?thesis
        using ps "1.prems" s
        by (intro exI [of _ "[] # ps"]) (simp add: py_join_Cons replace_empty_prefix)
    next
      case np: False
      obtain x t where s: "s = x # t" using False by (cases s) auto
      from "1.IH"(2) [OF _ np] False "1.prems"
      obtain ps where ps: "ps \<noteq> []" "tl s = py_join old ps"
        "\<forall>p \<in> set ps. \<not> sublist old p" "replace_empty (tl s) old = concat ps"
        by auto
      obtain p qs where pq: "ps = p # qs" using ps(1) by (cases ps) auto
      have "prefix (x # p) s"
        using ps(2) py_join_prefix [of p old qs] by (simp add: s pq)
      then have "\<not> prefix old (x # p)"
        using np prefix_order.trans by blast
      then have "\<not> sublist old (x # p)"
        using ps(3) by (simp add: pq sublist_Cons_right)
      moreover have "s = py_join old ((x # p) # qs)"
        using ps(2) by (cases qs) (simp_all add: s pq)
      moreover have "replace_empty s old = concat ((x # p) # qs)"
        using ps(4) np "1.prems" by (simp add: s pq replace_empty_Cons)
      ultimately show ?thesis
        using ps(3) by (intro exI [of _ "(x # p) # qs"]) (simp add: pq)
    qed
  qed
qed






lemma extract_color_Some:
  assumes "re_search u raw = Some (i, c)"
  shows "extract_color u raw = (py_strip u (replace_empty raw c), Some c)"
    and "is_color_code c"
proof -
  have m: "match_here u (drop (i - 0) raw) = Some c"
    using re_search_from_Some [of u 0 raw i c] assms by (simp add: re_search_def)
  show cc: "is_color_code c" using match_here_Some(1) [OF m] .
  then have "c \<noteq> []" by (auto simp: is_color_code_def)
  then show "extract_color u raw = (py_strip u (replace_empty raw c), Some c)"
    using assms by (simp add: extract_color_def)
qed

lemma extract_color_code:
  assumes "snd (extract_color u raw) = Some c"
  shows "\<exists>i. re_search u raw = Some (i, c)"
  using assms by (cases "re_search u raw") (auto simp: extract_color_def Let_def)

text \<open>
  Claim C6.  For every raw model output, the colour code that the extraction step returns,
  when there is one, is \<open>#\<close> (code point 35) followed by exactly three or exactly six
  hexadecimal digits.
\<close>

theorem color_code_format:
  assumes "snd (extract_color u raw) = Some c"
  shows "\<exists>h. c = 35 # h \<and> (length h = 3 \<or> length h = 6) \<and> (\<forall>d \<in> set h. is_hex d)"
proof -
  obtain i where "re_search u raw = Some (i, c)"
    using extract_color_code [OF assms] by blast
  then have "is_color_code c" by (rule extract_color_Some(2))
  then show ?thesis
    by (cases c) (auto simp: is_color_code_def list_all_iff)
qed

text \<open>
  Claim C6, at the example of the specification: the code \<open>#1E90FF\<close> is extracted and has
  the format.
\<close>

theorem color_code_format_witness:
  "snd (extract_color no_unicode (ascii ''Sunny and bright. #1E90FF'')) = Some (ascii ''#1E90FF'') \<and>
   (\<exists>h. ascii ''#1E90FF'' = 35 # h \<and> (length h = 3 \<or> length h = 6) \<and> (\<forall>d \<in> set h. is_hex d))"
proof -
  have h: "snd (extract_color no_unicode (ascii ''Sunny and bright. #1E90FF'')) = Some (ascii ''#1E90FF'')"
    by code_simp
  show ?thesis
    by (rule conjI [OF h color_code_format [OF h]])
qed

text \<open>
  Claim C10.  \<open>match_here u (35 # r)\<close> is the attempt to match the pattern at a position
  that holds \<open>#\<close> followed by the text \<open>r\<close>; the hexadecimal digits that follow the
  \<open>#\<close> are \<open>takeWhile is_hex r\<close>.  The attempt fails when there are four or five
  digits, and when there are three or six digits and the next character is a word
  character.  Whatever code the extraction returns is followed, in the raw text, by the end
  of the text or by a character that is not a word character, so a three-digit code is
  never a prefix of a longer alphanumeric run.
\<close>

theorem pattern_needs_word_boundary:
  "(length (takeWhile is_hex r) = 4 \<or> length (takeWhile is_hex r) = 5
      \<longrightarrow> match_here u (35 # r) = None) \<and>
   ((length (takeWhile is_hex r) = 3 \<or> length (takeWhile is_hex r) = 6) \<and>
      dropWhile is_hex r \<noteq> [] \<and> is_word u (hd (dropWhile is_hex r))
      \<longrightarrow> match_here u (35 # r) = None) \<and>
   (snd (extract_color u raw) = Some c
      \<longrightarrow> (\<exists>pre post. raw = pre @ c @ post \<and> (post = [] \<or> \<not> is_word u (hd post))))"
proof (intro conjI impI)
  assume "length (takeWhile is_hex r) = 4 \<or> length (takeWhile is_hex r) = 5"
  then show "match_here u (35 # r) = None"
    by (auto simp: match_here_run Let_def)
next
  assume "(length (takeWhile is_hex r) = 3 \<or> length (takeWhile is_hex r) = 6) \<and>
      dropWhile is_hex r \<noteq> [] \<and> is_word u (hd (dropWhile is_hex r))"
  then show "match_here u (35 # r) = None"
    by (auto simp: match_here_run Let_def)
next
  assume "snd (extract_color u raw) = Some c"
  then obtain i where i: "re_search u raw = Some (i, c)"
    using extract_color_code by blast
  have m: "i < length raw" "match_here u (drop i raw) = Some c"
    using re_search_from_Some [of u 0 raw i c] i by (simp_all add: re_search_def)
  obtain post where post: "drop i raw = c @ post" "post = [] \<or> \<not> is_word u (hd post)"
    using match_here_Some(2) [OF m(2)] by blast
  have "raw = take i raw @ c @ post"
    using post(1) by (metis append_take_drop_id)
  then show "\<exists>pre post. raw = pre @ c @ post \<and> (post = [] \<or> \<not> is_word u (hd post))"
    using post(2) by blast
qed

text \<open>
  Claim C10 at concrete inputs: \<open>#1E90F.\<close> (five digits), \<open>#abc_\<close> (three digits and an
  underscore) and \<open>#1E90FFx\<close> (six digits and a letter) do not match, and the code found
  in \<open>Grey #abc.\<close> is followed by a full stop.
\<close>

theorem pattern_needs_word_boundary_witness:
  "match_here no_unicode (35 # ascii ''1E90F.'') = None \<and>
   match_here no_unicode (35 # ascii ''abc_'') = None \<and>
   match_here no_unicode (35 # ascii ''1E90FFx'') = None \<and>
   (\<exists>pre post. ascii ''Grey #abc.'' = pre @ ascii ''#abc'' @ post \<and>
       (post = [] \<or> \<not> is_word no_unicode (hd post)))"
proof -
  have a: "length (takeWhile is_hex (ascii ''1E90F.'')) = 4 \<or>
           length (takeWhile is_hex (ascii ''1E90F.'')) = 5"
    by code_simp
  have b: "(length (takeWhile is_hex (ascii ''abc_'')) = 3 \<or>
            length (takeWhile is_hex (ascii ''abc_'')) = 6) \<and>
           dropWhile is_hex (ascii ''abc_'') \<noteq> [] \<and>
           is_word no_unicode (hd (dropWhile is_hex (ascii ''abc_'')))"
    by code_simp
  have c: "(length (takeWhile is_hex (ascii ''1E90FFx'')) = 3 \<or>
            length (takeWhile is_hex (ascii ''1E90FFx'')) = 6) \<and>
           dropWhile is_hex (ascii ''1E90FFx'') \<noteq> [] \<and>
           is_word no_unicode (hd (dropWhile is_hex (ascii ''1E90FFx'')))"
    by code_simp
  have d: "snd (extract_color no_unicode (ascii ''Grey #abc.'')) = Some (ascii ''#abc'')"
    by code_simp
  note t = pattern_needs_word_boundary [where u = no_unicode]
  note t1 = t [THEN conjunct1, THEN mp]
  note t2 = t [THEN conjunct2, THEN conjunct1, THEN mp]
  note t3 = t [THEN conjunct2, THEN conjunct2, THEN mp]
  show ?thesis
    by (intro conjI) (rule t1 [OF a], rule t2 [OF b], rule t2 [OF c], rule t3 [OF d])
qed




text \<open>
  Claim C9 says that after the removal the cleaned text holds no occurrence of the returned
  code.  Counterexample: in \<open>#a#abcbc #abc\<close> the only match is the final \<open>#abc\<close>;
  \<open>str.replace\<close> deletes the two occurrences of \<open>#abc\<close> in one pass, and the text
  around the first of them, \<open>#a\<close> and \<open>bc\<close>, joins to the cleaned text \<open>#abc\<close>.
\<close>

theorem no_occurrence_left_counterexample:
  "extract_color no_unicode (ascii ''#a#abcbc #abc'') = (ascii ''#abc'', Some (ascii ''#abc'')) \<and>
   sublist (ascii ''#abc'') (ascii ''#abc'')"
  by code_simp

text \<open>
  Claim C9, amended.  When a match is found, every occurrence of the matched string in the raw
  text is removed, not only the first: the raw text is the pieces \<open>ps\<close> joined by the code,
  no piece contains the code, and the cleaned text is the concatenation of the pieces,
  stripped.
\<close>

theorem every_occurrence_removed:
  assumes "extract_color u raw = (cleaned, Some c)"
  shows "\<exists>ps. ps \<noteq> [] \<and> raw = py_join c ps \<and> (\<forall>p \<in> set ps. \<not> sublist c p) \<and>
              cleaned = py_strip u (concat ps)"
proof -
  have "snd (extract_color u raw) = Some c" using assms by simp
  then obtain i where i: "re_search u raw = Some (i, c)"
    using extract_color_code by blast
  have e: "cleaned = py_strip u (replace_empty raw c)" and "is_color_code c"
    using extract_color_Some [OF i] assms by simp_all
  then have "c \<noteq> []" by (auto simp: is_color_code_def)
  from replace_empty_pieces [OF this, of raw] show ?thesis
    using e by auto
qed

text \<open>
  Claim C9, amended, at \<open>#fff and #fff\<close>: both occurrences are removed.
\<close>

theorem every_occurrence_removed_witness:
  "extract_color no_unicode (ascii ''#fff and #fff'') = (ascii ''and'', Some (ascii ''#fff'')) \<and>
   (\<exists>ps. ps \<noteq> [] \<and> ascii ''#fff and #fff'' = py_join (ascii ''#fff'') ps \<and>
      (\<forall>p \<in> set ps. \<not> sublist (ascii ''#fff'') p) \<and>
      ascii ''and'' = py_strip no_unicode (concat ps))"
proof -
  have h: "extract_color no_unicode (ascii ''#fff and #fff'') = (ascii ''and'', Some (ascii ''#fff''))"
    by code_simp
  show ?thesis
    by (rule conjI [OF h every_occurrence_removed [OF h]])
qed
section \<open>Properties of the rounding\<close>

lemma pow2_powi: "pow2 k = 2 powi k"
  by (simp add: pow2_def power_int_def field_simps)

lemma pow2_pos [simp]: "0 < pow2 k"
  by (simp add: pow2_powi)

lemma pow2_add: "pow2 (a + b) = pow2 a * pow2 b"
  by (simp add: pow2_powi power_int_add)

lemma pow2_mono: "a \<le> b \<Longrightarrow> pow2 a \<le> pow2 b"
  by (simp add: pow2_powi power_int_increasing)

lemma pow2_strict_mono: "a < b \<Longrightarrow> pow2 a < pow2 b"
  by (simp add: pow2_powi power_int_strict_increasing)

lemma pow2_nat: "pow2 (int n) = 2 ^ n"
  by (simp add: pow2_def)

lemma pow2_diff: "pow2 (a - b) = pow2 a / pow2 b"
  by (simp add: pow2_powi power_int_diff)

lemma round_half_even_error: "\<bar>of_int (round_half_even x) - x\<bar> \<le> 1 / 2"
proof -
  define r where "r = x - of_int \<lfloor>x\<rfloor>"
  have r: "0 \<le> r" "r < 1" unfolding r_def by linarith+
  have x: "x = of_int \<lfloor>x\<rfloor> + r" by (simp add: r_def)
  have "round_half_even x = \<lfloor>x\<rfloor> \<and> r \<le> 1 / 2 \<or> round_half_even x = \<lfloor>x\<rfloor> + 1 \<and> 1 / 2 \<le> r"
    unfolding round_half_even_def Let_def r_def [symmetric] by auto
  then show ?thesis
  proof
    assume a: "round_half_even x = \<lfloor>x\<rfloor> \<and> r \<le> 1 / 2"
    then have "of_int (round_half_even x) - x = - r" using x by simp
    then show ?thesis using a r by simp
  next
    assume a: "round_half_even x = \<lfloor>x\<rfloor> + 1 \<and> 1 / 2 \<le> r"
    then have "of_int (round_half_even x) - x = 1 - r" using x by simp
    then show ?thesis using a r by simp
  qed
qed

lemma round_half_even_nonneg: "0 \<le> x \<Longrightarrow> 0 \<le> round_half_even x"
  unfolding round_half_even_def Let_def by (auto simp: zero_le_floor)

lemma floor_log2_bounds:
  assumes "0 < q"
  shows "pow2 (floor_log2 q) \<le> q" and "q < pow2 (floor_log2 q + 1)"
proof -
  obtain n d where nd: "quotient_of q = (n, d)" by (cases "quotient_of q")
  then have d: "0 < d" and q: "q = of_int n / of_int d"
    by (simp_all add: quotient_of_denom_pos quotient_of_div)
  have n: "0 < n" using assms d q by (simp add: zero_less_divide_iff)
  define k where "k = bitlen n - bitlen d"
  have bn: "2 ^ nat (bitlen n - 1) \<le> n" "n < 2 ^ nat (bitlen n)"
    using bitlen_bounds [OF n] by simp_all
  have bd: "2 ^ nat (bitlen d - 1) \<le> d" "d < 2 ^ nat (bitlen d)"
    using bitlen_bounds [OF d] by simp_all
  have pn: "0 < bitlen n" and pd: "0 < bitlen d"
    using n d bitlen_eq_zero_iff [of n] bitlen_eq_zero_iff [of d] bitlen_nonneg [of n]
      bitlen_nonneg [of d] by linarith+
  have rn: "pow2 (bitlen n - 1) \<le> of_int n" "of_int n < pow2 (bitlen n)"
  proof -
    have "(of_int (2 ^ nat (bitlen n - 1)) :: rat) \<le> of_int n"
      using bn(1) by (subst of_int_le_iff)
    then show "pow2 (bitlen n - 1) \<le> of_int n" using pn by (simp add: pow2_def)
    have "(of_int n :: rat) < of_int (2 ^ nat (bitlen n))"
      using bn(2) by (subst of_int_less_iff)
    then show "of_int n < pow2 (bitlen n)" using pn by (simp add: pow2_def)
  qed
  have rd: "pow2 (bitlen d - 1) \<le> of_int d" "of_int d < pow2 (bitlen d)"
  proof -
    have "(of_int (2 ^ nat (bitlen d - 1)) :: rat) \<le> of_int d"
      using bd(1) by (subst of_int_le_iff)
    then show "pow2 (bitlen d - 1) \<le> of_int d" using pd by (simp add: pow2_def)
    have "(of_int d :: rat) < of_int (2 ^ nat (bitlen d))"
      using bd(2) by (subst of_int_less_iff)
    then show "of_int d < pow2 (bitlen d)" using pd by (simp add: pow2_def)
  qed
  have dpos: "(0::rat) < of_int d" using d by simp
  have lo: "pow2 (k - 1) < q"
  proof -
    have "pow2 (k - 1) * of_int d < pow2 (k - 1) * pow2 (bitlen d)"
      using rd(2) by simp
    also have "\<dots> = pow2 (bitlen n - 1)"
      by (simp add: k_def pow2_add [symmetric])
    also have "\<dots> \<le> of_int n" by (rule rn(1))
    finally show ?thesis using dpos by (simp add: q pos_less_divide_eq)
  qed
  have hi: "q < pow2 (k + 1)"
  proof -
    have "of_int n < pow2 (bitlen n)" by (rule rn(2))
    also have "\<dots> = pow2 (k + 1) * pow2 (bitlen d - 1)"
      by (simp add: k_def pow2_add [symmetric])
    also have "\<dots> \<le> pow2 (k + 1) * of_int d"
      using rd(1) by simp
    finally show ?thesis using dpos by (simp add: q pos_divide_less_eq)
  qed
  have fl: "floor_log2 q = (if pow2 k \<le> q then k else k - 1)"
    by (simp add: floor_log2_def nd k_def Let_def)
  show "pow2 (floor_log2 q) \<le> q"
    using lo by (simp add: fl)
  show "q < pow2 (floor_log2 q + 1)"
    using hi by (auto simp: fl)
qed

lemma floor_log2_less: "0 < q \<Longrightarrow> q < pow2 k \<Longrightarrow> floor_log2 q < k"
  using floor_log2_bounds(1) [of q] pow2_mono [of k "floor_log2 q"] by (meson leD leI order_trans)

lemma floor_log2_ge: "0 < q \<Longrightarrow> pow2 k \<le> q \<Longrightarrow> k \<le> floor_log2 q"
  using floor_log2_bounds(2) [of q] pow2_mono [of "floor_log2 q + 1" k] by (smt (verit) leD order_trans)

lemma overflow_test: "0 < m \<Longrightarrow> 1024 \<le> floor_log2 m \<longleftrightarrow> pow2 1024 \<le> m"
  using floor_log2_ge [of m 1024] floor_log2_less [of m 1024] by fastforce

lemma scaled_abs:
  assumes "0 < (u::rat)"
  shows "\<bar>R - a / u\<bar> * u = \<bar>R * u - a\<bar>"
proof -
  have "\<bar>R - a / u\<bar> * u = \<bar>(R - a / u) * u\<bar>"
    using assms by (simp add: abs_mult)
  also have "(R - a / u) * u = R * u - a"
    using assms by (simp add: left_diff_distrib)
  finally show ?thesis .
qed

lemma round_double_0 [simp]: "round_double 0 = Fin 0"
  by (simp add: round_double_def)

lemma round_double_error:
  assumes "round_double q = Fin r"
  shows "\<bar>r - q\<bar> \<le> pow2 (max (floor_log2 \<bar>q\<bar>) (- 1022) - 53)"
proof (cases "q = 0")
  case True
  then show ?thesis using assms by (simp add: less_imp_le)
next
  case False
  define a where "a = \<bar>q\<bar>"
  define E where "E = max (floor_log2 a) (- 1022)"
  define ulp where "ulp = pow2 (E - 52)"
  define m where "m = of_int (round_half_even (a / ulp)) * ulp"
  have u: "0 < ulp" by (simp add: ulp_def)
  have rd: "round_double q =
      (if 0 < m \<and> 1024 \<le> floor_log2 m then (if 0 < q then PInf else NInf)
       else Fin (if 0 < q then m else - m))"
    using False by (simp add: round_double_def Let_def a_def E_def ulp_def m_def)
  then have r: "r = (if 0 < q then m else - m)"
    using assms by (auto split: if_splits)
  have "\<bar>of_int (round_half_even (a / ulp)) - a / ulp\<bar> * ulp \<le> (1 / 2) * ulp"
    using round_half_even_error [of "a / ulp"] u by (intro mult_right_mono) simp_all
  moreover have "\<bar>of_int (round_half_even (a / ulp)) - a / ulp\<bar> * ulp = \<bar>m - a\<bar>"
    using u by (simp only: m_def scaled_abs)
  ultimately have "\<bar>m - a\<bar> \<le> ulp / 2" by simp
  moreover have "\<bar>r - q\<bar> = \<bar>m - a\<bar>"
    using False by (auto simp: r a_def)
  moreover have "ulp / 2 = pow2 (E - 53)"
  proof -
    have "pow2 (E - 52) = pow2 (E - 53 + 1)" by simp
    also have "\<dots> = pow2 (E - 53) * 2" by (simp only: pow2_add) (simp add: pow2_def)
    finally show ?thesis by (simp add: ulp_def)
  qed
  ultimately show ?thesis by (simp add: E_def a_def)
qed

lemma pow2_numeral: "pow2 (numeral k) = 2 ^ numeral k" "pow2 (- numeral k) = 1 / 2 ^ numeral k"
  by (simp_all add: pow2_def)

lemma round_double_error_abs:
  assumes "round_double q = Fin r"
  shows "\<bar>r - q\<bar> \<le> \<bar>q\<bar> / 2 ^ 53 + pow2 (- 1075)"
proof (cases "q = 0")
  case True
  then show ?thesis using assms by (simp add: less_imp_le)
next
  case False
  then have a: "0 < \<bar>q\<bar>" by simp
  show ?thesis
  proof (cases "- 1022 \<le> floor_log2 \<bar>q\<bar>")
    case True
    then have "max (floor_log2 \<bar>q\<bar>) (- 1022) - 53 = floor_log2 \<bar>q\<bar> + (- 53)" by simp
    then have "pow2 (max (floor_log2 \<bar>q\<bar>) (- 1022) - 53) = pow2 (floor_log2 \<bar>q\<bar>) * pow2 (- 53)"
      by (simp only: pow2_add)
    also have "\<dots> \<le> \<bar>q\<bar> * pow2 (- 53)"
      using floor_log2_bounds(1) [OF a] by (intro mult_right_mono) (simp_all add: less_imp_le)
    also have "\<dots> = \<bar>q\<bar> / 2 ^ 53" by (simp add: pow2_def)
    finally have "pow2 (max (floor_log2 \<bar>q\<bar>) (- 1022) - 53) \<le> \<bar>q\<bar> / 2 ^ 53" .
    moreover have "0 \<le> pow2 (- 1075)" by (simp add: less_imp_le)
    ultimately show ?thesis using round_double_error [OF assms] by linarith
  next
    case False
    then have "max (floor_log2 \<bar>q\<bar>) (- 1022) - 53 = - 1075" by simp
    then have "\<bar>r - q\<bar> \<le> pow2 (- 1075)" using round_double_error [OF assms] by simp
    moreover have "0 \<le> \<bar>q\<bar> / 2 ^ 53" by simp
    ultimately show ?thesis by linarith
  qed
qed

lemma round_double_finite:
  assumes "\<bar>q\<bar> \<le> pow2 1023"
  shows "\<exists>r. round_double q = Fin r"
proof (cases "q = 0")
  case True
  then show ?thesis by simp
next
  case False
  define a where "a = \<bar>q\<bar>"
  define E where "E = max (floor_log2 a) (- 1022)"
  define ulp where "ulp = pow2 (E - 52)"
  define m where "m = of_int (round_half_even (a / ulp)) * ulp"
  have a: "0 < a" using False by (simp add: a_def)
  have u: "0 < ulp" by (simp add: ulp_def)
  have rd: "round_double q =
      (if 0 < m \<and> 1024 \<le> floor_log2 m then (if 0 < q then PInf else NInf)
       else Fin (if 0 < q then m else - m))"
    using False by (simp add: round_double_def Let_def a_def E_def ulp_def m_def)
  have "a < pow2 1024"
    using assms pow2_strict_mono [of 1023 1024] by (simp add: a_def)
  then have "floor_log2 a < 1024" using a by (rule floor_log2_less [rotated])
  then have "E - 52 \<le> 971" by (simp add: E_def)
  then have ulp_le: "ulp \<le> pow2 971" unfolding ulp_def by (rule pow2_mono)
  have "\<bar>of_int (round_half_even (a / ulp)) - a / ulp\<bar> * ulp \<le> (1 / 2) * ulp"
    using round_half_even_error [of "a / ulp"] u by (intro mult_right_mono) simp_all
  moreover have "\<bar>of_int (round_half_even (a / ulp)) - a / ulp\<bar> * ulp = \<bar>m - a\<bar>"
    using u by (simp only: m_def scaled_abs)
  ultimately have "\<bar>m - a\<bar> \<le> ulp / 2" by simp
  then have "m - a \<le> ulp / 2" by linarith
  moreover have "a \<le> pow2 1023" using assms by (simp add: a_def)
  ultimately have "m \<le> pow2 1023 + pow2 971"
    using ulp_le u by linarith
  moreover have "pow2 1023 + pow2 971 < pow2 1024"
  proof -
    have "pow2 971 < pow2 1023" by (rule pow2_strict_mono) simp
    moreover have "pow2 1024 = pow2 1023 * 2"
      using pow2_add [of 1023 1] by (simp add: pow2_def)
    ultimately show ?thesis by linarith
  qed
  ultimately have "m < pow2 1024" by linarith
  then have "\<not> (0 < m \<and> 1024 \<le> floor_log2 m)"
    using floor_log2_less [of m 1024] by auto
  then show ?thesis by (simp add: rd)
qed

lemma bnd_Inl [simp]: "bnd (Inl e) f = Inl e"
  by (simp add: bnd_def)

lemma bnd_Inr [simp]: "bnd (Inr x) f = f x"
  by (simp add: bnd_def)

lemma literal_2_237: "float_literal (2237 / 1000) = 5037276183213900 / 2 ^ 51"
  by code_simp

lemma round_step:
  assumes "\<bar>q\<bar> \<le> pow2 1023"
  obtains r where "round_double q = Fin r" and "\<bar>r - q\<bar> \<le> \<bar>q\<bar> / 2 ^ 53 + pow2 (- 1075)"
  using round_double_finite [OF assms] round_double_error_abs by blast

lemma pow2_1023: "pow2 1023 = pow2 1000 * 8388608"
  using pow2_add [of 1000 23] by (simp add: pow2_def)

lemma pow2_1000_ge: "1 \<le> pow2 1000"
  using pow2_mono [of 0 1000] by (simp add: pow2_def)

lemma pow2_tiny: "pow2 (- 1075) \<le> 1" "0 < pow2 (- 1075)" "pow2 (- 1073) = 4 * pow2 (- 1075)"
proof -
  show "pow2 (- 1075) \<le> 1" using pow2_mono [of "- 1075" 0] by (simp add: pow2_def)
  show "0 < pow2 (- 1075)" by simp
  show "pow2 (- 1073) = 4 * pow2 (- 1075)"
    using pow2_add [of "- 1075" 2] by (simp add: pow2_def)
qed

lemma pow2_m50: "pow2 (- 50) = 8 / 2 ^ 53"
  by (simp add: pow2_def)

lemma mph_bound:
  assumes "0 \<le> X" and "0 \<le> (d::rat)"
  shows "X * (9 / 4) / 2 ^ 53 + d + X / 2 ^ 53 \<le> X * (8 / 2 ^ 53) + 4 * d"
proof -
  have "X * (9 / 4) / 2 ^ 53 + X / 2 ^ 53 = X * (13 / 4 / 2 ^ 53)" by simp
  moreover have "X * (13 / 4 / 2 ^ 53) \<le> X * (8 / 2 ^ 53)"
    using assms(1) by (intro mult_left_mono) simp_all
  ultimately show ?thesis using assms(2) by linarith
qed

lemma ms_to_mph_float_accuracy:
  assumes "\<bar>x\<bar> \<le> pow2 1000"
  shows "\<exists>r. ms_to_mph (VFloat (Fin x)) = Inr (VFloat (Fin r)) \<and>
             \<bar>r - x * (2237 / 1000)\<bar> \<le> \<bar>x\<bar> * pow2 (- 50) + pow2 (- 1073)"
proof -
  define c :: rat where "c = 5037276183213900 / 2 ^ 51"
  have c: "0 < c" "c \<le> 9 / 4" "\<bar>c - 2237 / 1000\<bar> \<le> 1 / 2 ^ 53"
    by (simp_all add: c_def)
  have xc: "\<bar>x * c\<bar> = \<bar>x\<bar> * c" using c(1) by (simp add: abs_mult)
  have "\<bar>x\<bar> * c \<le> \<bar>x\<bar> * (9 / 4)" using c(2) by (intro mult_left_mono) simp_all
  then have "\<bar>x * c\<bar> \<le> pow2 1023"
    using assms pow2_1000_ge by (simp add: xc pow2_1023)
  then obtain r where r: "round_double (x * c) = Fin r"
    and e: "\<bar>r - x * c\<bar> \<le> \<bar>x * c\<bar> / 2 ^ 53 + pow2 (- 1075)"
    by (rule round_step)
  have m: "ms_to_mph (VFloat (Fin x)) = Inr (VFloat (Fin r))"
    using r by (simp add: ms_to_mph_def py_mul_float_def float_op_def literal_2_237 c_def)
  have "\<bar>x * c - x * (2237 / 1000)\<bar> = \<bar>x\<bar> * \<bar>c - 2237 / 1000\<bar>"
    by (simp add: abs_mult [symmetric] right_diff_distrib)
  also have "\<dots> \<le> \<bar>x\<bar> * (1 / 2 ^ 53)" using c(3) by (intro mult_left_mono) simp_all
  finally have d: "\<bar>x * c - x * (2237 / 1000)\<bar> \<le> \<bar>x\<bar> / 2 ^ 53" by simp
  have "\<bar>r - x * (2237 / 1000)\<bar> \<le> \<bar>r - x * c\<bar> + \<bar>x * c - x * (2237 / 1000)\<bar>"
    by linarith
  also have "\<dots> \<le> (\<bar>x\<bar> * (9 / 4)) / 2 ^ 53 + pow2 (- 1075) + \<bar>x\<bar> / 2 ^ 53"
    using e d \<open>\<bar>x\<bar> * c \<le> \<bar>x\<bar> * (9 / 4)\<close> by (simp add: xc)
  also have "\<dots> \<le> \<bar>x\<bar> * pow2 (- 50) + pow2 (- 1073)"
    unfolding pow2_m50 pow2_tiny(3) by (rule mph_bound) (simp_all add: less_imp_le)
  finally show ?thesis using m by blast
qed

lemma round_step2:
  assumes "\<bar>q\<bar> \<le> pow2 1023"
  obtains r where "round_double q = Fin r"
    and "\<bar>r - q\<bar> \<le> \<bar>q\<bar> / 2 ^ 53 + pow2 (- 1075)"
    and "\<bar>r\<bar> \<le> \<bar>q\<bar> + \<bar>q\<bar> / 2 ^ 53 + pow2 (- 1075)"
proof -
  obtain r where r: "round_double q = Fin r" "\<bar>r - q\<bar> \<le> \<bar>q\<bar> / 2 ^ 53 + pow2 (- 1075)"
    using assms by (rule round_step)
  have "\<bar>r\<bar> \<le> \<bar>q\<bar> + \<bar>r - q\<bar>" by linarith
  then have "\<bar>r\<bar> \<le> \<bar>q\<bar> + \<bar>q\<bar> / 2 ^ 53 + pow2 (- 1075)" using r(2) by linarith
  with r show ?thesis by (rule that)
qed

lemma abs_mult_le: "0 \<le> c \<Longrightarrow> c \<le> k \<Longrightarrow> \<bar>a * c\<bar> \<le> \<bar>a\<bar> * (k::rat)"
  by (simp add: abs_mult mult_left_mono)

lemma ms_to_mph_int_accuracy:
  assumes "\<bar>of_int v\<bar> \<le> pow2 1000"
  shows "\<exists>r. ms_to_mph (VInt v) = Inr (VFloat (Fin r)) \<and>
             \<bar>r - of_int v * (2237 / 1000)\<bar> \<le> \<bar>of_int v\<bar> * pow2 (- 50) + pow2 (- 1073)"
proof -
  define c :: rat where "c = 5037276183213900 / 2 ^ 51"
  define V :: rat where "V = \<bar>of_int v\<bar>"
  define dl where "dl = pow2 (- 1075)"
  define P where "P = pow2 1000"
  have c: "0 \<le> c" "c \<le> 9 / 4" "\<bar>c - 2237 / 1000\<bar> \<le> 1 / 2 ^ 53"
    by (simp_all add: c_def)
  have dl: "0 < dl" "dl \<le> 1" using pow2_tiny by (simp_all add: dl_def)
  have P: "1 \<le> P" "V \<le> P" "0 \<le> V" using assms pow2_1000_ge by (simp_all add: P_def V_def)
  have "\<bar>of_int v :: rat\<bar> \<le> pow2 1023" using P by (simp add: pow2_1023 V_def P_def)
  then obtain v' where v': "round_double (of_int v) = Fin v'"
    and e1: "\<bar>v' - of_int v\<bar> \<le> V / 2 ^ 53 + dl"
    and b1: "\<bar>v'\<bar> \<le> V + V / 2 ^ 53 + dl"
    unfolding V_def dl_def by (rule round_step2)
  have q: "\<bar>v' * c\<bar> \<le> \<bar>v'\<bar> * (9 / 4)" using c(1,2) by (rule abs_mult_le)
  then have "\<bar>v' * c\<bar> \<le> pow2 1023"
    using b1 P dl unfolding pow2_1023 P_def [symmetric] by simp
  then obtain r where r: "round_double (v' * c) = Fin r"
    and e2: "\<bar>r - v' * c\<bar> \<le> \<bar>v' * c\<bar> / 2 ^ 53 + dl"
    unfolding dl_def by (rule round_step)
  have m: "ms_to_mph (VInt v) = Inr (VFloat (Fin r))"
    using v' r
    by (simp add: ms_to_mph_def py_mul_float_def int_to_float_def float_op_def literal_2_237 c_def)
  have "v' * c - of_int v * c = (v' - of_int v) * c" by (simp add: left_diff_distrib)
  then have d1: "\<bar>v' * c - of_int v * c\<bar> \<le> \<bar>v' - of_int v\<bar> * (9 / 4)"
    using abs_mult_le [OF c(1,2), of "v' - of_int v"] by simp
  have "of_int v * c - of_int v * (2237 / 1000) = of_int v * (c - 2237 / 1000)"
    by (simp add: right_diff_distrib)
  then have "\<bar>of_int v * c - of_int v * (2237 / 1000)\<bar> = V * \<bar>c - 2237 / 1000\<bar>"
    by (simp add: abs_mult V_def)
  also have "\<dots> \<le> V * (1 / 2 ^ 53)" using c(3) P(3) by (intro mult_left_mono)
  finally have d2: "\<bar>of_int v * c - of_int v * (2237 / 1000)\<bar> \<le> V / 2 ^ 53" by simp
  have "\<bar>r - of_int v * (2237 / 1000)\<bar>
          \<le> \<bar>r - v' * c\<bar> + \<bar>v' * c - of_int v * c\<bar> + \<bar>of_int v * c - of_int v * (2237 / 1000)\<bar>"
    by linarith
  also have "\<dots> \<le> V * (8 / 2 ^ 53) + 4 * dl"
    using e1 b1 q e2 d1 d2 dl P(3) by simp
  finally show ?thesis
    using m unfolding pow2_m50 pow2_tiny(3) V_def dl_def by blast
qed

lemma c2f_bound_int:
  fixes A :: rat
  assumes "A \<le> B / 2 ^ 53 + d" "B \<le> D + 32" "C \<le> X * 9 / 5 / 2 ^ 53 + d"
    "D \<le> X * 9 / 5 + X * 9 / 5 / 2 ^ 53 + d" "0 \<le> d" "0 \<le> X"
  shows "A + C \<le> (X + 6) * (8 / 2 ^ 53) + 4 * d"
proof -
  have "B / 2 ^ 53 \<le> (D + 32) / 2 ^ 53"
    using assms(2) by (simp add: divide_right_mono)
  moreover have "(D + 32) / 2 ^ 53 \<le> (X * 9 / 5 + X * 9 / 5 / 2 ^ 53 + d + 32) / 2 ^ 53"
    using assms(4) by (simp add: divide_right_mono)
  ultimately have "A + C \<le> (X * 9 / 5 + X * 9 / 5 / 2 ^ 53 + d + 32) / 2 ^ 53 + d + (X * 9 / 5 / 2 ^ 53 + d)"
    using assms(1,3) by linarith
  moreover have "(X * 9 / 5 + X * 9 / 5 / 2 ^ 53 + d + 32) / 2 ^ 53 + d + (X * 9 / 5 / 2 ^ 53 + d)
       \<le> (X + 6) * (8 / 2 ^ 53) + 4 * d"
    using assms(5,6) by (simp add: field_simps)
  ultimately show ?thesis by linarith
qed

lemma c2f_bound_float:
  fixes A :: rat
  assumes "A \<le> B / 2 ^ 53 + d" "B \<le> D + 32" "C \<le> R / 5 / 2 ^ 53 + d"
    "D \<le> R / 5 + R / 5 / 2 ^ 53 + d" "E \<le> X * 9 / 2 ^ 53 + d"
    "R \<le> X * 9 + X * 9 / 2 ^ 53 + d" "0 \<le> d" "0 \<le> X"
  shows "A + C + E / 5 \<le> (X + 6) * (8 / 2 ^ 53) + 4 * d"
proof -
  have 1: "R / 5 \<le> (X * 9 + X * 9 / 2 ^ 53 + d) / 5"
    using assms(6) by (simp add: divide_right_mono)
  then have 2: "R / 5 / 2 ^ 53 \<le> (X * 9 + X * 9 / 2 ^ 53 + d) / 5 / 2 ^ 53"
    by (simp add: divide_right_mono)
  have 3: "D \<le> (X * 9 + X * 9 / 2 ^ 53 + d) / 5 + (X * 9 + X * 9 / 2 ^ 53 + d) / 5 / 2 ^ 53 + d"
    using assms(4) 1 2 by linarith
  have "B / 2 ^ 53 \<le> (D + 32) / 2 ^ 53"
    using assms(2) by (simp add: divide_right_mono)
  also have "\<dots> \<le> ((X * 9 + X * 9 / 2 ^ 53 + d) / 5 + (X * 9 + X * 9 / 2 ^ 53 + d) / 5 / 2 ^ 53 + d + 32) / 2 ^ 53"
    by (rule divide_right_mono) (use 3 in linarith, simp)
  finally have 4: "B / 2 ^ 53 \<le> ((X * 9 + X * 9 / 2 ^ 53 + d) / 5 + (X * 9 + X * 9 / 2 ^ 53 + d) / 5 / 2 ^ 53 + d + 32) / 2 ^ 53" .
  have 5: "E / 5 \<le> (X * 9 / 2 ^ 53 + d) / 5"
    using assms(5) by (simp add: divide_right_mono)
  have "A + C + E / 5 \<le>
      ((X * 9 + X * 9 / 2 ^ 53 + d) / 5 + (X * 9 + X * 9 / 2 ^ 53 + d) / 5 / 2 ^ 53 + d + 32) / 2 ^ 53 + d
      + ((X * 9 + X * 9 / 2 ^ 53 + d) / 5 / 2 ^ 53 + d) + (X * 9 / 2 ^ 53 + d) / 5"
    using assms(1,3) 2 4 5 by linarith
  moreover have "((X * 9 + X * 9 / 2 ^ 53 + d) / 5 + (X * 9 + X * 9 / 2 ^ 53 + d) / 5 / 2 ^ 53 + d + 32) / 2 ^ 53 + d
      + ((X * 9 + X * 9 / 2 ^ 53 + d) / 5 / 2 ^ 53 + d) + (X * 9 / 2 ^ 53 + d) / 5
       \<le> (X + 6) * (8 / 2 ^ 53) + 4 * d"
    using assms(7,8) by (simp add: field_simps)
  ultimately show ?thesis by linarith
qed

lemma abs_triangle3: "\<bar>a + b + c\<bar> \<le> \<bar>a\<bar> + \<bar>b\<bar> + \<bar>c :: rat\<bar>"
  by linarith

lemma celsius_to_fahrenheit_float_accuracy:
  assumes "\<bar>x\<bar> \<le> pow2 1000"
  shows "\<exists>r. celsius_to_fahrenheit (VFloat (Fin x)) = Inr (VFloat (Fin r)) \<and>
             \<bar>r - (x * 9 / 5 + 32)\<bar> \<le> (\<bar>x\<bar> + 6) * pow2 (- 50) + pow2 (- 1073)"
proof -
  define X where "X = \<bar>x\<bar>"
  define dl where "dl = pow2 (- 1075)"
  define P where "P = pow2 1000"
  have dl: "0 < dl" "dl \<le> 1" using pow2_tiny by (simp_all add: dl_def)
  have P: "1 \<le> P" "X \<le> P" "0 \<le> X" using assms pow2_1000_ge by (simp_all add: P_def X_def)
  have "\<bar>x * 9\<bar> = X * 9" by (simp add: X_def)
  then have "\<bar>x * 9\<bar> \<le> pow2 1023" using P by (simp add: pow2_1023 P_def)
  then obtain r0 where r0: "round_double (x * 9) = Fin r0"
    and e0: "\<bar>r0 - x * 9\<bar> \<le> \<bar>x * 9\<bar> / 2 ^ 53 + dl"
    and b0: "\<bar>r0\<bar> \<le> \<bar>x * 9\<bar> + \<bar>x * 9\<bar> / 2 ^ 53 + dl"
    unfolding dl_def by (rule round_step2)
  have b0': "\<bar>r0\<bar> \<le> X * 9 + X * 9 / 2 ^ 53 + dl"
    using b0 \<open>\<bar>x * 9\<bar> = X * 9\<close> by simp
  have e0': "\<bar>r0 - x * 9\<bar> \<le> X * 9 / 2 ^ 53 + dl"
    using e0 \<open>\<bar>x * 9\<bar> = X * 9\<close> by simp
  have q1: "\<bar>r0 / 5\<bar> = \<bar>r0\<bar> / 5" by simp
  have "\<bar>r0 / 5\<bar> \<le> pow2 1023"
    using b0' P dl unfolding q1 pow2_1023 P_def [symmetric] by simp
  then obtain r1 where r1: "round_double (r0 / 5) = Fin r1"
    and e1: "\<bar>r1 - r0 / 5\<bar> \<le> \<bar>r0 / 5\<bar> / 2 ^ 53 + dl"
    and b1: "\<bar>r1\<bar> \<le> \<bar>r0 / 5\<bar> + \<bar>r0 / 5\<bar> / 2 ^ 53 + dl"
    unfolding dl_def by (rule round_step2)
  have q2: "\<bar>r1 + 32\<bar> \<le> \<bar>r1\<bar> + 32" by linarith
  have "\<bar>r1 + 32\<bar> \<le> pow2 1023"
    using q2 b1 b0' P dl unfolding q1 pow2_1023 P_def [symmetric] by simp
  then obtain r where r: "round_double (r1 + 32) = Fin r"
    and e2: "\<bar>r - (r1 + 32)\<bar> \<le> \<bar>r1 + 32\<bar> / 2 ^ 53 + dl"
    unfolding dl_def by (rule round_step)
  have m: "celsius_to_fahrenheit (VFloat (Fin x)) = Inr (VFloat (Fin r))"
    using r0 r1 r
    by (simp add: celsius_to_fahrenheit_def py_mul_int_def py_truediv_int_def py_add_int_def
        float_op_def)
  have "r - (x * 9 / 5 + 32) = (r - (r1 + 32)) + (r1 - r0 / 5) + (r0 - x * 9) / 5"
    by (simp add: diff_divide_distrib)
  then have "\<bar>r - (x * 9 / 5 + 32)\<bar>
          \<le> \<bar>r - (r1 + 32)\<bar> + \<bar>r1 - r0 / 5\<bar> + \<bar>(r0 - x * 9) / 5\<bar>"
    using abs_triangle3 by presburger
  also have "\<dots> = \<bar>r - (r1 + 32)\<bar> + \<bar>r1 - r0 / 5\<bar> + \<bar>r0 - x * 9\<bar> / 5"
    by simp
  also have "\<dots> \<le> (X + 6) * (8 / 2 ^ 53) + 4 * dl"
    using e2 q2 e1 b1 e0' b0' less_imp_le [OF dl(1)] P(3) unfolding q1
    by (rule c2f_bound_float)
  finally show ?thesis
    using m unfolding pow2_m50 pow2_tiny(3) X_def dl_def by blast
qed

lemma celsius_to_fahrenheit_int_accuracy:
  assumes "\<bar>of_int i\<bar> \<le> pow2 1000"
  shows "\<exists>r. celsius_to_fahrenheit (VInt i) = Inr (VFloat (Fin r)) \<and>
             \<bar>r - (of_int i * 9 / 5 + 32)\<bar> \<le> (\<bar>of_int i\<bar> + 6) * pow2 (- 50) + pow2 (- 1073)"
proof -
  define X :: rat where "X = \<bar>of_int i\<bar>"
  define dl where "dl = pow2 (- 1075)"
  define P where "P = pow2 1000"
  have dl: "0 < dl" "dl \<le> 1" using pow2_tiny by (simp_all add: dl_def)
  have P: "1 \<le> P" "X \<le> P" "0 \<le> X" using assms pow2_1000_ge by (simp_all add: P_def X_def)
  have q0: "\<bar>of_int (i * 9) / of_int 5 :: rat\<bar> = X * 9 / 5" by (simp add: X_def)
  then have "\<bar>of_int (i * 9) / of_int 5 :: rat\<bar> \<le> pow2 1023"
    using P by (simp add: pow2_1023 P_def)
  then obtain r1 where r1: "round_double (of_int (i * 9) / of_int 5) = Fin r1"
    and e1: "\<bar>r1 - of_int (i * 9) / of_int 5\<bar> \<le> \<bar>of_int (i * 9) / of_int 5 :: rat\<bar> / 2 ^ 53 + dl"
    and b1: "\<bar>r1\<bar> \<le> \<bar>of_int (i * 9) / of_int 5 :: rat\<bar> + \<bar>of_int (i * 9) / of_int 5 :: rat\<bar> / 2 ^ 53 + dl"
    unfolding dl_def by (rule round_step2)
  have e1': "\<bar>r1 - of_int i * 9 / 5\<bar> \<le> X * 9 / 5 / 2 ^ 53 + dl"
    using e1 unfolding q0 by simp
  have b1': "\<bar>r1\<bar> \<le> X * 9 / 5 + X * 9 / 5 / 2 ^ 53 + dl"
    using b1 unfolding q0 by simp
  have q2: "\<bar>r1 + 32\<bar> \<le> \<bar>r1\<bar> + 32" by linarith
  have "\<bar>r1 + 32\<bar> \<le> pow2 1023"
    using q2 b1' P dl unfolding pow2_1023 P_def [symmetric] by simp
  then obtain r where r: "round_double (r1 + 32) = Fin r"
    and e2: "\<bar>r - (r1 + 32)\<bar> \<le> \<bar>r1 + 32\<bar> / 2 ^ 53 + dl"
    unfolding dl_def by (rule round_step)
  have m: "celsius_to_fahrenheit (VInt i) = Inr (VFloat (Fin r))"
    using r1 r
    by (simp add: celsius_to_fahrenheit_def py_mul_int_def py_truediv_int_def py_add_int_def
        int_truediv_def float_op_def)
  have "\<bar>r - (of_int i * 9 / 5 + 32)\<bar> \<le> \<bar>r - (r1 + 32)\<bar> + \<bar>r1 - of_int i * 9 / 5\<bar>"
    by linarith
  also have "\<dots> \<le> (X + 6) * (8 / 2 ^ 53) + 4 * dl"
    using e2 q2 e1' b1' less_imp_le [OF dl(1)] P(3) by (rule c2f_bound_int)
  finally show ?thesis
    using m unfolding pow2_m50 pow2_tiny(3) X_def dl_def by blast
qed

section \<open>Properties of the unit conversions\<close>

lemma c2f_0: "celsius_to_fahrenheit (VInt 0) = Inr (VFloat (Fin 32))"
  by code_simp

lemma c2f_100: "celsius_to_fahrenheit (VInt 100) = Inr (VFloat (Fin 212))"
  by code_simp

lemma c2f_0_float: "celsius_to_fahrenheit (VFloat (Fin 0)) = Inr (VFloat (Fin 32))"
  by code_simp

lemma c2f_100_float: "celsius_to_fahrenheit (VFloat (Fin 100)) = Inr (VFloat (Fin 212))"
  by code_simp

lemma small_le_pow2_1000: "\<bar>q\<bar> \<le> 32 \<Longrightarrow> \<bar>q\<bar> \<le> pow2 1000"
proof -
  assume "\<bar>q\<bar> \<le> 32"
  moreover have "pow2 5 \<le> pow2 1000" by (rule pow2_mono) simp
  moreover have "pow2 5 = 32" by (simp add: pow2_def)
  ultimately show ?thesis by linarith
qed

text \<open>
  Claim C7.  The Celsius-to-Fahrenheit helper maps 0 to 32 and 100 to 212, for the \<open>int\<close>
  and for the \<open>float\<close> of that value, and maps \<open>None\<close> to \<open>None\<close>.  For every other
  input \<open>c\<close> it is the evaluation of \<open>(c * 9 / 5) + 32\<close>, each operator applied in
  turn.  For a number of magnitude up to \<open>2 ^ 1000\<close>, an \<open>int\<close> \<open>i\<close> or a finite
  \<open>float\<close> \<open>x\<close>, this evaluation returns a finite \<open>float\<close> that differs from the
  exact value of \<open>c * 9 / 5 + 32\<close> by no more than the rounding of the double
  arithmetic, \<open>(\<bar>c\<bar> + 6) / 2 ^ 50 + 1 / 2 ^ 1073\<close>.
\<close>

theorem celsius_to_fahrenheit_values:
  "celsius_to_fahrenheit (VInt 0) = Inr (VFloat (Fin 32)) \<and>
   celsius_to_fahrenheit (VInt 100) = Inr (VFloat (Fin 212)) \<and>
   celsius_to_fahrenheit (VFloat (Fin 0)) = Inr (VFloat (Fin 32)) \<and>
   celsius_to_fahrenheit (VFloat (Fin 100)) = Inr (VFloat (Fin 212)) \<and>
   celsius_to_fahrenheit VNone = Inr VNone \<and>
   (c \<noteq> VNone \<longrightarrow>
      celsius_to_fahrenheit c =
        bnd (py_mul_int c 9) (\<lambda>x. bnd (py_truediv_int x 5) (\<lambda>y. py_add_int y 32))) \<and>
   (\<bar>of_int i\<bar> \<le> pow2 1000 \<longrightarrow>
      (\<exists>r. celsius_to_fahrenheit (VInt i) = Inr (VFloat (Fin r)) \<and>
           \<bar>r - (of_int i * 9 / 5 + 32)\<bar> \<le> (\<bar>of_int i\<bar> + 6) * pow2 (- 50) + pow2 (- 1073))) \<and>
   (\<bar>x\<bar> \<le> pow2 1000 \<longrightarrow>
      (\<exists>r. celsius_to_fahrenheit (VFloat (Fin x)) = Inr (VFloat (Fin r)) \<and>
           \<bar>r - (x * 9 / 5 + 32)\<bar> \<le> (\<bar>x\<bar> + 6) * pow2 (- 50) + pow2 (- 1073)))"
proof (intro conjI impI)
  show "celsius_to_fahrenheit VNone = Inr VNone"
    by (simp add: celsius_to_fahrenheit_def)
  show "celsius_to_fahrenheit c =
        bnd (py_mul_int c 9) (\<lambda>x. bnd (py_truediv_int x 5) (\<lambda>y. py_add_int y 32))"
    if "c \<noteq> VNone"
    using that by (simp add: celsius_to_fahrenheit_def)
qed (rule c2f_0 c2f_100 c2f_0_float c2f_100_float
      celsius_to_fahrenheit_int_accuracy celsius_to_fahrenheit_float_accuracy, assumption?)+

theorem celsius_to_fahrenheit_values_witness:
  "(VInt 20 \<noteq> VNone \<and> celsius_to_fahrenheit (VInt 20) = Inr (VFloat (Fin 68))) \<and>
   (\<bar>of_int 20 :: rat\<bar> \<le> pow2 1000 \<and>
      (\<exists>r. celsius_to_fahrenheit (VInt 20) = Inr (VFloat (Fin r)) \<and>
           \<bar>r - (of_int 20 * 9 / 5 + 32)\<bar> \<le> (\<bar>of_int 20\<bar> + 6) * pow2 (- 50) + pow2 (- 1073))) \<and>
   (\<bar>25 / 2 :: rat\<bar> \<le> pow2 1000 \<and>
      (\<exists>r. celsius_to_fahrenheit (VFloat (Fin (25 / 2))) = Inr (VFloat (Fin r)) \<and>
           \<bar>r - (25 / 2 * 9 / 5 + 32)\<bar> \<le> (\<bar>25 / 2\<bar> + 6) * pow2 (- 50) + pow2 (- 1073)))"
proof -
  note t = celsius_to_fahrenheit_values [of "VInt 20" 20 "25 / 2"]
  note t6 = t [THEN conjunct2, THEN conjunct2, THEN conjunct2, THEN conjunct2, THEN conjunct2]
  have n: "VInt 20 \<noteq> VNone" by simp
  have e: "bnd (py_mul_int (VInt 20) 9) (\<lambda>x. bnd (py_truediv_int x 5) (\<lambda>y. py_add_int y 32))
             = Inr (VFloat (Fin 68))"
    by code_simp
  have a: "celsius_to_fahrenheit (VInt 20) = Inr (VFloat (Fin 68))"
    using t6 [THEN conjunct1, THEN mp, OF n] e by simp
  have i: "\<bar>of_int 20 :: rat\<bar> \<le> pow2 1000" by (rule small_le_pow2_1000) simp
  have x: "\<bar>25 / 2 :: rat\<bar> \<le> pow2 1000" by (rule small_le_pow2_1000) simp
  show ?thesis
    by (intro conjI) (rule n, rule a, rule i, rule t6 [THEN conjunct2, THEN conjunct1, THEN mp, OF i],
      rule x, rule t6 [THEN conjunct2, THEN conjunct2, THEN mp, OF x])
qed

lemma mph_1: "ms_to_mph (VInt 1) = Inr (VFloat (Fin (5037276183213900 / 2 ^ 51)))"
  by code_simp

lemma mph_1_float: "ms_to_mph (VFloat (Fin 1)) = Inr (VFloat (Fin (5037276183213900 / 2 ^ 51)))"
  by code_simp

text \<open>
  Claim C8.  The helper maps 1, \<open>int\<close> or \<open>float\<close>, to the double nearest to 2.237, which
  is within \<open>1e-3\<close> of 2.237, and maps \<open>None\<close> to \<open>None\<close>.  For every other input \<open>v\<close>
  it is the evaluation of \<open>v * 2.237\<close>.  For a number of magnitude up to \<open>2 ^ 1000\<close>,
  an \<open>int\<close> \<open>i\<close> or a finite \<open>float\<close> \<open>x\<close>, this evaluation returns a finite
  \<open>float\<close> that differs from the exact product with 2.237 by no more than the rounding
  of the double arithmetic, \<open>\<bar>v\<bar> / 2 ^ 50 + 1 / 2 ^ 1073\<close>.
\<close>

theorem ms_to_mph_values:
  "(\<exists>d. ms_to_mph (VInt 1) = Inr (VFloat (Fin d)) \<and> \<bar>d - 2237 / 1000\<bar> \<le> 1 / 1000) \<and>
   (\<exists>d. ms_to_mph (VFloat (Fin 1)) = Inr (VFloat (Fin d)) \<and> \<bar>d - 2237 / 1000\<bar> \<le> 1 / 1000) \<and>
   ms_to_mph VNone = Inr VNone \<and>
   (v \<noteq> VNone \<longrightarrow> ms_to_mph v = py_mul_float v (float_literal (2237 / 1000))) \<and>
   (\<bar>of_int i\<bar> \<le> pow2 1000 \<longrightarrow>
      (\<exists>r. ms_to_mph (VInt i) = Inr (VFloat (Fin r)) \<and>
           \<bar>r - of_int i * (2237 / 1000)\<bar> \<le> \<bar>of_int i\<bar> * pow2 (- 50) + pow2 (- 1073))) \<and>
   (\<bar>x\<bar> \<le> pow2 1000 \<longrightarrow>
      (\<exists>r. ms_to_mph (VFloat (Fin x)) = Inr (VFloat (Fin r)) \<and>
           \<bar>r - x * (2237 / 1000)\<bar> \<le> \<bar>x\<bar> * pow2 (- 50) + pow2 (- 1073)))"
proof (intro conjI impI)
  have d: "\<bar>5037276183213900 / 2 ^ 51 - 2237 / 1000 :: rat\<bar> \<le> 1 / 1000"
    by simp
  show "\<exists>d. ms_to_mph (VInt 1) = Inr (VFloat (Fin d)) \<and> \<bar>d - 2237 / 1000\<bar> \<le> 1 / 1000"
    by (rule exI [of _ "5037276183213900 / 2 ^ 51"]) (rule conjI [OF mph_1 d])
  show "\<exists>d. ms_to_mph (VFloat (Fin 1)) = Inr (VFloat (Fin d)) \<and> \<bar>d - 2237 / 1000\<bar> \<le> 1 / 1000"
    by (rule exI [of _ "5037276183213900 / 2 ^ 51"]) (rule conjI [OF mph_1_float d])
  show "ms_to_mph VNone = Inr VNone"
    by (simp add: ms_to_mph_def)
  show "ms_to_mph v = py_mul_float v (float_literal (2237 / 1000))" if "v \<noteq> VNone"
    using that by (simp add: ms_to_mph_def)
qed (rule ms_to_mph_int_accuracy ms_to_mph_float_accuracy, assumption)+

theorem ms_to_mph_values_witness:
  "(VInt 10 \<noteq> VNone \<and>
      ms_to_mph (VInt 10) = Inr (VFloat (Fin (6296595229017375 / 2 ^ 48)))) \<and>
   (\<bar>of_int 10 :: rat\<bar> \<le> pow2 1000 \<and>
      (\<exists>r. ms_to_mph (VInt 10) = Inr (VFloat (Fin r)) \<and>
           \<bar>r - of_int 10 * (2237 / 1000)\<bar> \<le> \<bar>of_int 10\<bar> * pow2 (- 50) + pow2 (- 1073))) \<and>
   (\<bar>7 / 2 :: rat\<bar> \<le> pow2 1000 \<and>
      (\<exists>r. ms_to_mph (VFloat (Fin (7 / 2))) = Inr (VFloat (Fin r)) \<and>
           \<bar>r - 7 / 2 * (2237 / 1000)\<bar> \<le> \<bar>7 / 2\<bar> * pow2 (- 50) + pow2 (- 1073)))"
proof -
  note t = ms_to_mph_values [of "VInt 10" 10 "7 / 2"]
  note t4 = t [THEN conjunct2, THEN conjunct2, THEN conjunct2]
  have n: "VInt 10 \<noteq> VNone" by simp
  have e: "py_mul_float (VInt 10) (float_literal (2237 / 1000))
             = Inr (VFloat (Fin (6296595229017375 / 2 ^ 48)))"
    by code_simp
  have a: "ms_to_mph (VInt 10) = Inr (VFloat (Fin (6296595229017375 / 2 ^ 48)))"
    using t4 [THEN conjunct1, THEN mp, OF n] e by simp
  have i: "\<bar>of_int 10 :: rat\<bar> \<le> pow2 1000" by (rule small_le_pow2_1000) simp
  have x: "\<bar>7 / 2 :: rat\<bar> \<le> pow2 1000" by (rule small_le_pow2_1000) simp
  show ?thesis
    by (intro conjI) (rule n, rule a, rule i, rule t4 [THEN conjunct2, THEN conjunct1, THEN mp, OF i],
      rule x, rule t4 [THEN conjunct2, THEN conjunct2, THEN mp, OF x])
qed

section \<open>Properties of the weather client\<close>

lemma bnd_eq_Inr: "bnd m f = Inr y \<longleftrightarrow> (\<exists>x. m = Inr x \<and> f x = Inr y)"
  by (cases m) simp_all

lemma get_weather_data_Some:
  "get_weather_data env lat lon = Inr (Some w) \<longleftrightarrow> try_body env lat lon = Inr w"
  by (auto simp: get_weather_data_def split: sum.splits option.splits)

lemma get_weather_data_raised:
  assumes "try_body env lat lon = Inl e" and "request_exception env = Some h"
  shows "get_weather_data env lat lon = (if h e \<or> parsing_error e then Inr None else Inl e)"
  using assms by (simp add: get_weather_data_def)

lemma try_body_Inr:
  "try_body env lat lon = Inr w \<longleftrightarrow>
     (\<exists>pd fd od. fetch_responses env lat lon = Inr (pd, fd, od) \<and>
        format_response env lat lon pd fd od = Inr w)"
  by (auto simp: try_body_def bnd_eq_Inr)

lemma format_response_Inr:
  "format_response env lat lon pd fd od = Inr w \<longleftrightarrow>
     (\<exists>loc cc fc. format_location lat lon pd = Inr loc \<and> format_conditions od = Inr cc \<and>
        format_forecast env fd = Inr fc \<and>
        w = \<lparr>location = loc, current_conditions = cc, forecast = fc\<rparr>)"
  by (auto simp: format_response_def bnd_eq_Inr)

lemma py_slice2_Inr:
  assumes "py_slice2 x v = Inr r"
  shows "(\<exists>ps. v = VList ps \<and> r = VList (take 2 ps)) \<or> (\<exists>s. v = VStr s \<and> r = VStr (take 2 s))"
  using assms by (cases v) (auto simp: py_slice2_def)

text \<open>
  Claim C5.  When the fetch succeeds, the forecast of the returned snapshot is the slice
  \<open>[:2]\<close> of the value under \<open>properties\<close>, \<open>periods\<close> of the forecast response:
  for a list of periods of any length it is the list of the first two of them (all of them
  when there are fewer), in order, so its length is at most two.  (A successful slice leaves
  one other case, that the upstream value is a string; then the forecast is its first two
  characters.)
\<close>

theorem forecast_is_first_two_periods:
  assumes "get_weather_data env lat lon = Inr (Some w)"
  shows "\<exists>point_data forecast_data observation_data props periods.
           fetch_responses env lat lon = Inr (point_data, forecast_data, observation_data) \<and>
           py_getitem forecast_data (ascii ''properties'') = Inr props \<and>
           py_getitem props (ascii ''periods'') = Inr periods \<and>
           ((\<exists>ps. periods = VList ps \<and> forecast w = VList (take 2 ps) \<and> length (take 2 ps) \<le> 2) \<or>
            (\<exists>s. periods = VStr s \<and> forecast w = VStr (take 2 s) \<and> length (take 2 s) \<le> 2))"
proof -
  from assms have "try_body env lat lon = Inr w"
    by (simp add: get_weather_data_Some)
  then obtain pd fd od where f: "fetch_responses env lat lon = Inr (pd, fd, od)"
    and r: "format_response env lat lon pd fd od = Inr w"
    by (auto simp: try_body_Inr)
  from r have fc: "format_forecast env fd = Inr (forecast w)"
    by (auto simp: format_response_Inr)
  then obtain props periods where p: "py_getitem fd (ascii ''properties'') = Inr props"
    "py_getitem props (ascii ''periods'') = Inr periods"
    "py_slice2 (dict_slice_error env) periods = Inr (forecast w)"
    by (auto simp: format_forecast_def bnd_eq_Inr)
  have "(\<exists>ps. periods = VList ps \<and> forecast w = VList (take 2 ps) \<and> length (take 2 ps) \<le> 2) \<or>
        (\<exists>s. periods = VStr s \<and> forecast w = VStr (take 2 s) \<and> length (take 2 s) \<le> 2)"
    using py_slice2_Inr [OF p(3)] by fastforce
  with f p(1,2) show ?thesis by blast
qed

theorem forecast_is_first_two_periods_witness:
  "get_weather_data null_env LAT LON = Inr (Some all_null_snapshot) \<and>
   (\<exists>point_data forecast_data observation_data props periods.
      fetch_responses null_env LAT LON = Inr (point_data, forecast_data, observation_data) \<and>
      py_getitem forecast_data (ascii ''properties'') = Inr props \<and>
      py_getitem props (ascii ''periods'') = Inr periods \<and>
      ((\<exists>ps. periods = VList ps \<and> forecast all_null_snapshot = VList (take 2 ps) \<and>
             length (take 2 ps) \<le> 2) \<or>
       (\<exists>s. periods = VStr s \<and> forecast all_null_snapshot = VStr (take 2 s) \<and>
             length (take 2 s) \<le> 2)))"
proof -
  have h: "get_weather_data null_env LAT LON = Inr (Some all_null_snapshot)"
    by code_simp
  show ?thesis
    by (rule conjI [OF h forecast_is_first_two_periods [OF h]])
qed

lemma get_weather_data_lookup_fails:
  assumes "try_body env lat lon = Inl e" and "request_exception env = None"
  shows "get_weather_data env lat lon = Inl AttributeError"
  using assms by (simp add: get_weather_data_def)

lemma handlers_when_class_resolves:
  assumes "request_exception env = Some is_request_exception"
  shows "(get_weather_data env lat lon = Inr None \<longleftrightarrow>
           (\<exists>e. try_body env lat lon = Inl e \<and>
                (is_request_exception e \<or> e = KeyError \<or> e = IndexError \<or> e = JSONDecodeError))) \<and>
         (get_weather_data env lat lon = Inl e \<longleftrightarrow>
           try_body env lat lon = Inl e \<and>
           \<not> (is_request_exception e \<or> e = KeyError \<or> e = IndexError \<or> e = JSONDecodeError))"
proof (cases "try_body env lat lon")
  case (Inl e')
  then show ?thesis
    using assms by (auto simp: get_weather_data_raised parsing_error_def)
next
  case (Inr w)
  then show ?thesis by (simp add: get_weather_data_def)
qed

lemma type_error_not_caught:
  "get_weather_data wrong_shape_resolving_env LAT LON = Inl TypeError"
  by code_simp

lemma get_json_raises:
  "http_get env n url = Inl e \<Longrightarrow> get_json env n url = Inl e"
  "http_get env n url = Inr r \<Longrightarrow> raise_for_status r = Some e \<Longrightarrow> get_json env n url = Inl e"
  "http_get env n url = Inr r \<Longrightarrow> raise_for_status r = None \<Longrightarrow> json r = Inl e \<Longrightarrow>
     get_json env n url = Inl e"
  by (simp_all add: get_json_def)

lemma missing_key: "map_of kvs key = None \<Longrightarrow> py_getitem (VDict kvs) key = Inl KeyError"
  by (simp add: py_getitem_def)

lemma empty_list: "py_getitem0 (VList []) = Inl IndexError"
  by (simp add: py_getitem0_def)

lemma first_request_fails:
  "get_json env 0 (VStr (base_url @ ascii ''/points/'' @ float_str env lat @ ascii '',''
       @ float_str env lon)) = Inl e \<Longrightarrow> try_body env lat lon = Inl e"
  by (simp add: try_body_def fetch_responses_def)

text \<open>
  Claim C1 says that every error of the categories (a) to (c) is caught inside the client
  and makes the fetch return \<open>None\<close>, so that no exception of these categories passes the
  client.  The code does not do that.  Take the run in which the station list has no
  features and everything else is well formed: the body of the \<open>try\<close> statement raises
  \<open>IndexError\<close>, the first handler evaluates \<open>httpx.exceptions.RequestException\<close>, the
  lookup fails, and \<open>AttributeError\<close> leaves \<open>get_weather_data\<close> in place of the return
  of \<open>None\<close>.
\<close>

theorem handler_class_lookup_raises:
  "request_exception no_stations_env = None \<and>
   try_body no_stations_env LAT LON = Inl IndexError \<and>
   get_weather_data no_stations_env LAT LON = Inl AttributeError"
proof -
  have r: "request_exception no_stations_env = None"
    by (simp add: no_stations_env_def sample_env_def published_httpx_def)
  have b: "try_body no_stations_env LAT LON = Inl IndexError"
    by code_simp
  have "get_weather_data no_stations_env LAT LON = Inl AttributeError"
    using b r by (rule get_weather_data_lookup_fails)
  with r b show ?thesis by simp
qed

text \<open>
  Claim C2 says that a leaf observation field that is missing still gives a snapshot, with
  the field absent.  Counterexample: the observation has no key \<open>temperature\<close> and is
  otherwise well formed.  The subscript raises \<open>KeyError\<close> in the body of the \<open>try\<close>
  statement, and no snapshot is returned: with the handler's class missing the fetch
  raises, and with a library in which the class exists it returns \<open>None\<close>.
\<close>

theorem missing_leaf_key_aborts_counterexample:
  "map_of no_temperature (ascii ''temperature'') = None \<and>
   try_body no_temperature_env LAT LON = Inl KeyError \<and>
   get_weather_data no_temperature_env LAT LON = Inl AttributeError \<and>
   get_weather_data no_temperature_resolving_env LAT LON = Inr None"
  by code_simp

lemma format_conditions_Inr:
  assumes "observed od (ascii ''timestamp'') = Inr ts"
    and "observed_value od (ascii ''temperature'') = Inr tv"
    and "celsius_to_fahrenheit tv = Inr tf"
    and "observed_value od (ascii ''relativeHumidity'') = Inr hv"
    and "observed_value od (ascii ''windSpeed'') = Inr wv"
    and "ms_to_mph wv = Inr wm"
    and "observed_value od (ascii ''windDirection'') = Inr dv"
    and "observed od (ascii ''textDescription'') = Inr desc"
  shows "format_conditions od =
           Inr \<lparr>timestamp = ts, temperature_f = tf, temperature_c = tv, humidity = hv,
                wind_speed_mph = wm, wind_direction = dv, description = desc\<rparr>"
  using assms by (simp add: format_conditions_def)

lemma format_conditions_needs:
  assumes "format_conditions od = Inr cc"
  shows "\<exists>ts tv hv wv dv desc.
           observed od (ascii ''timestamp'') = Inr ts \<and>
           observed_value od (ascii ''temperature'') = Inr tv \<and>
           observed_value od (ascii ''relativeHumidity'') = Inr hv \<and>
           observed_value od (ascii ''windSpeed'') = Inr wv \<and>
           observed_value od (ascii ''windDirection'') = Inr dv \<and>
           observed od (ascii ''textDescription'') = Inr desc"
proof -
  from assms obtain ts where ts: "observed od (ascii ''timestamp'') = Inr ts"
    and 1: "bnd (observed_value od (ascii ''temperature'')) (\<lambda>t1.
     bnd (celsius_to_fahrenheit t1) (\<lambda>tf.
     bnd (observed_value od (ascii ''temperature'')) (\<lambda>tc.
     bnd (observed_value od (ascii ''relativeHumidity'')) (\<lambda>h.
     bnd (observed_value od (ascii ''windSpeed'')) (\<lambda>w1.
     bnd (ms_to_mph w1) (\<lambda>ws.
     bnd (observed_value od (ascii ''windDirection'')) (\<lambda>wd.
     bnd (observed od (ascii ''textDescription'')) (\<lambda>d.
     Inr \<lparr>timestamp = ts, temperature_f = tf, temperature_c = tc, humidity = h,
          wind_speed_mph = ws, wind_direction = wd, description = d\<rparr>)))))))) = Inr cc"
    unfolding format_conditions_def bnd_eq_Inr by blast
  from 1 obtain tv tf where tv: "observed_value od (ascii ''temperature'') = Inr tv"
    and 2: "bnd (observed_value od (ascii ''relativeHumidity'')) (\<lambda>h.
     bnd (observed_value od (ascii ''windSpeed'')) (\<lambda>w1.
     bnd (ms_to_mph w1) (\<lambda>ws.
     bnd (observed_value od (ascii ''windDirection'')) (\<lambda>wd.
     bnd (observed od (ascii ''textDescription'')) (\<lambda>d.
     Inr \<lparr>timestamp = ts, temperature_f = tf, temperature_c = tv, humidity = h,
          wind_speed_mph = ws, wind_direction = wd, description = d\<rparr>))))) = Inr cc"
    unfolding bnd_eq_Inr by auto
  from 2 obtain hv wv ws where hv: "observed_value od (ascii ''relativeHumidity'') = Inr hv"
    and wv: "observed_value od (ascii ''windSpeed'') = Inr wv"
    and 3: "bnd (observed_value od (ascii ''windDirection'')) (\<lambda>wd.
     bnd (observed od (ascii ''textDescription'')) (\<lambda>d.
     Inr \<lparr>timestamp = ts, temperature_f = tf, temperature_c = tv, humidity = hv,
          wind_speed_mph = ws, wind_direction = wd, description = d\<rparr>)) = Inr cc"
    unfolding bnd_eq_Inr by auto
  from 3 obtain dv desc where dv: "observed_value od (ascii ''windDirection'') = Inr dv"
    and desc: "observed od (ascii ''textDescription'') = Inr desc"
    unfolding bnd_eq_Inr by auto
  from ts tv hv wv dv desc show ?thesis by blast
qed

lemma get_weather_data_formatted:
  assumes "fetch_responses env lat lon = Inr (pd, fd, od)"
    and "format_location lat lon pd = Inr loc"
    and "format_conditions od = Inr cc"
    and "format_forecast env fd = Inr fc"
  shows "get_weather_data env lat lon =
           Inr (Some \<lparr>location = loc, current_conditions = cc, forecast = fc\<rparr>)"
  using assms by (simp add: get_weather_data_def try_body_def format_response_def)

lemma no_snapshot_without_conditions:
  assumes "fetch_responses env lat lon = Inr (pd, fd, od)"
    and "get_weather_data env lat lon = Inr (Some w)"
  shows "\<exists>cc. format_conditions od = Inr cc"
proof -
  from assms(2) have "try_body env lat lon = Inr w"
    by (simp add: get_weather_data_Some)
  then have "format_response env lat lon pd fd od = Inr w"
    using assms(1) by (simp add: try_body_def)
  then show ?thesis unfolding format_response_Inr by blast
qed

text \<open>
  Claim C2, amended.  Take a run in which the four requests succeed.  If the location is
  formatted and every leaf field of the observation is present, then a leaf field whose
  value is null is an explicit absent value (\<open>VNone\<close>) in the snapshot that the fetch
  returns: the temperature in both units, the humidity, the wind speed, the wind direction
  and the description, each on its own (a value that is not null is converted or passed
  on).  If the key of a leaf field is missing (the timestamp, the description, or
  \<open>temperature\<close>, \<open>relativeHumidity\<close>, \<open>windSpeed\<close>, \<open>windDirection\<close> or the
  \<open>value\<close> inside one of them), the whole fetch is aborted, no snapshot is returned; so
  it is for a missing structural key, such as the forecast URL of the grid-point response.
\<close>

theorem null_leaf_values_are_absent:
  "(fetch_responses env lat lon = Inr (pd, fd, od) \<and>
    format_location lat lon pd = Inr loc \<and>
    observed od (ascii ''timestamp'') = Inr ts \<and>
    observed_value od (ascii ''temperature'') = Inr tv \<and>
    (tv = VNone \<or> celsius_to_fahrenheit tv = Inr tf) \<and>
    observed_value od (ascii ''relativeHumidity'') = Inr hv \<and>
    observed_value od (ascii ''windSpeed'') = Inr wv \<and>
    (wv = VNone \<or> ms_to_mph wv = Inr wm) \<and>
    observed_value od (ascii ''windDirection'') = Inr dv \<and>
    observed od (ascii ''textDescription'') = Inr desc \<and>
    format_forecast env fd = Inr fc
    \<longrightarrow> get_weather_data env lat lon =
          Inr (Some \<lparr>location = loc,
                     current_conditions =
                       \<lparr>timestamp = ts,
                        temperature_f = (if tv = VNone then VNone else tf),
                        temperature_c = tv,
                        humidity = hv,
                        wind_speed_mph = (if wv = VNone then VNone else wm),
                        wind_direction = dv,
                        description = desc\<rparr>,
                     forecast = fc\<rparr>)) \<and>
   (fetch_responses env lat lon = Inr (pd, fd, od) \<and>
    (observed od (ascii ''timestamp'') = Inl KeyError \<or>
     observed_value od (ascii ''temperature'') = Inl KeyError \<or>
     observed_value od (ascii ''relativeHumidity'') = Inl KeyError \<or>
     observed_value od (ascii ''windSpeed'') = Inl KeyError \<or>
     observed_value od (ascii ''windDirection'') = Inl KeyError \<or>
     observed od (ascii ''textDescription'') = Inl KeyError)
    \<longrightarrow> (\<forall>w. get_weather_data env lat lon \<noteq> Inr (Some w))) \<and>
   (get_json env 0 (VStr (base_url @ ascii ''/points/'' @ float_str env lat @ ascii '',''
        @ float_str env lon)) = Inr pd0 \<and>
    py_getitem pd0 (ascii ''properties'') = Inr p0 \<and>
    py_getitem p0 (ascii ''forecast'') = Inl KeyError
    \<longrightarrow> (\<forall>w. get_weather_data env lat lon \<noteq> Inr (Some w)))"
proof (intro conjI impI)
  assume a: "fetch_responses env lat lon = Inr (pd, fd, od) \<and>
    format_location lat lon pd = Inr loc \<and>
    observed od (ascii ''timestamp'') = Inr ts \<and>
    observed_value od (ascii ''temperature'') = Inr tv \<and>
    (tv = VNone \<or> celsius_to_fahrenheit tv = Inr tf) \<and>
    observed_value od (ascii ''relativeHumidity'') = Inr hv \<and>
    observed_value od (ascii ''windSpeed'') = Inr wv \<and>
    (wv = VNone \<or> ms_to_mph wv = Inr wm) \<and>
    observed_value od (ascii ''windDirection'') = Inr dv \<and>
    observed od (ascii ''textDescription'') = Inr desc \<and>
    format_forecast env fd = Inr fc"
  from a have f: "fetch_responses env lat lon = Inr (pd, fd, od)"
    and l: "format_location lat lon pd = Inr loc"
    and ts: "observed od (ascii ''timestamp'') = Inr ts"
    and tv: "observed_value od (ascii ''temperature'') = Inr tv"
    and tf: "tv = VNone \<or> celsius_to_fahrenheit tv = Inr tf"
    and hv: "observed_value od (ascii ''relativeHumidity'') = Inr hv"
    and wv: "observed_value od (ascii ''windSpeed'') = Inr wv"
    and wm: "wv = VNone \<or> ms_to_mph wv = Inr wm"
    and dv: "observed_value od (ascii ''windDirection'') = Inr dv"
    and desc: "observed od (ascii ''textDescription'') = Inr desc"
    and fc: "format_forecast env fd = Inr fc"
    by blast+
  have t: "celsius_to_fahrenheit tv = Inr (if tv = VNone then VNone else tf)"
    using tf by (auto simp: celsius_to_fahrenheit_def)
  have w: "ms_to_mph wv = Inr (if wv = VNone then VNone else wm)"
    using wm by (auto simp: ms_to_mph_def)
  have cc: "format_conditions od =
          Inr \<lparr>timestamp = ts, temperature_f = (if tv = VNone then VNone else tf),
               temperature_c = tv, humidity = hv,
               wind_speed_mph = (if wv = VNone then VNone else wm),
               wind_direction = dv, description = desc\<rparr>"
    using ts tv t hv wv w dv desc by (rule format_conditions_Inr)
  show "get_weather_data env lat lon =
          Inr (Some \<lparr>location = loc,
                     current_conditions =
                       \<lparr>timestamp = ts,
                        temperature_f = (if tv = VNone then VNone else tf),
                        temperature_c = tv,
                        humidity = hv,
                        wind_speed_mph = (if wv = VNone then VNone else wm),
                        wind_direction = dv,
                        description = desc\<rparr>,
                     forecast = fc\<rparr>)"
    using f l cc fc by (rule get_weather_data_formatted)
next
  assume b: "fetch_responses env lat lon = Inr (pd, fd, od) \<and>
    (observed od (ascii ''timestamp'') = Inl KeyError \<or>
     observed_value od (ascii ''temperature'') = Inl KeyError \<or>
     observed_value od (ascii ''relativeHumidity'') = Inl KeyError \<or>
     observed_value od (ascii ''windSpeed'') = Inl KeyError \<or>
     observed_value od (ascii ''windDirection'') = Inl KeyError \<or>
     observed od (ascii ''textDescription'') = Inl KeyError)"
  show "\<forall>w. get_weather_data env lat lon \<noteq> Inr (Some w)"
  proof (intro allI notI)
    fix w assume "get_weather_data env lat lon = Inr (Some w)"
    then obtain cc where "format_conditions od = Inr cc"
      using b no_snapshot_without_conditions by blast
    from format_conditions_needs [OF this] b show False by auto
  qed
next
  assume c: "get_json env 0 (VStr (base_url @ ascii ''/points/'' @ float_str env lat @ ascii '',''
        @ float_str env lon)) = Inr pd0 \<and>
    py_getitem pd0 (ascii ''properties'') = Inr p0 \<and>
    py_getitem p0 (ascii ''forecast'') = Inl KeyError"
  then have "fetch_responses env lat lon = Inl KeyError"
    by (simp add: fetch_responses_def)
  then have "try_body env lat lon = Inl KeyError"
    by (simp add: try_body_def)
  then show "\<forall>w. get_weather_data env lat lon \<noteq> Inr (Some w)"
    by (simp add: get_weather_data_Some)
qed

theorem null_leaf_values_are_absent_witness:
  "(fetch_responses null_env LAT LON =
      Inr (sample_point, sample_forecast, sample_observation null_properties) \<and>
    observed_value (sample_observation null_properties) (ascii ''temperature'') = Inr VNone \<and>
    observed_value (sample_observation null_properties) (ascii ''windSpeed'') = Inr VNone \<and>
    get_weather_data null_env LAT LON = Inr (Some all_null_snapshot)) \<and>
   (fetch_responses no_temperature_env LAT LON =
      Inr (sample_point, sample_forecast, sample_observation no_temperature) \<and>
    observed_value (sample_observation no_temperature) (ascii ''temperature'') = Inl KeyError \<and>
    (\<forall>w. get_weather_data no_temperature_env LAT LON \<noteq> Inr (Some w))) \<and>
   (get_json no_forecast_url_env 0
      (VStr (base_url @ ascii ''/points/'' @ float_str no_forecast_url_env LAT @ ascii '',''
         @ float_str no_forecast_url_env LON)) = Inr no_forecast_url_point \<and>
    py_getitem no_forecast_url_point (ascii ''properties'') =
      Inr (VDict [(ascii ''observationStations'',
             VStr (ascii ''https://api.weather.gov/gridpoints/BOX/70,85/stations''))]) \<and>
    (\<forall>w. get_weather_data no_forecast_url_env LAT LON \<noteq> Inr (Some w)))"
proof -
  let ?loc = "\<lparr>name = VStr (ascii ''Boston''), state = VStr (ascii ''MA''),
               latitude = LAT, longitude = LON\<rparr>"
  let ?fc = "VList [sample_period ''Today'' ''Sunny.'', sample_period ''Tonight'' ''Clear.'']"
  let ?od = "sample_observation null_properties"
  let ?od' = "sample_observation no_temperature"
  let ?p0 = "VDict [(ascii ''observationStations'',
             VStr (ascii ''https://api.weather.gov/gridpoints/BOX/70,85/stations''))]"
  have f: "fetch_responses null_env LAT LON = Inr (sample_point, sample_forecast, ?od)"
    by code_simp
  have f': "fetch_responses no_temperature_env LAT LON = Inr (sample_point, sample_forecast, ?od')"
    by code_simp
  have l: "format_location LAT LON sample_point = Inr ?loc"
    by code_simp
  have ts: "observed ?od (ascii ''timestamp'') = Inr VNone"
    by code_simp
  have tv: "observed_value ?od (ascii ''temperature'') = Inr VNone"
    and hv: "observed_value ?od (ascii ''relativeHumidity'') = Inr VNone"
    and wv: "observed_value ?od (ascii ''windSpeed'') = Inr VNone"
    and dv: "observed_value ?od (ascii ''windDirection'') = Inr VNone"
    and d: "observed ?od (ascii ''textDescription'') = Inr VNone"
    and fc: "format_forecast null_env sample_forecast = Inr ?fc"
    and tv': "observed_value ?od' (ascii ''temperature'') = Inl KeyError"
    by code_simp+
  have g: "get_json no_forecast_url_env 0
      (VStr (base_url @ ascii ''/points/'' @ float_str no_forecast_url_env LAT @ ascii '',''
         @ float_str no_forecast_url_env LON)) = Inr no_forecast_url_point"
    by code_simp
  have p: "py_getitem no_forecast_url_point (ascii ''properties'') = Inr ?p0"
    by code_simp
  have k: "py_getitem ?p0 (ascii ''forecast'') = Inl KeyError"
    by code_simp
  note t1 = null_leaf_values_are_absent [where env = null_env and lat = LAT and lon = LON
      and pd = sample_point and fd = sample_forecast and od = ?od and loc = ?loc
      and ts = VNone and tv = VNone and tf = VNone and hv = VNone and wv = VNone
      and wm = VNone and dv = VNone and desc = VNone and fc = ?fc,
      THEN conjunct1, THEN mp]
  have a: "get_weather_data null_env LAT LON = Inr (Some all_null_snapshot)"
    using t1 f l ts tv hv wv dv d fc by (simp add: all_null_snapshot_def)
  note t2 = null_leaf_values_are_absent [where env = no_temperature_env and lat = LAT
      and lon = LON and pd = sample_point and fd = sample_forecast and od = ?od',
      THEN conjunct2, THEN conjunct1, THEN mp]
  have b: "\<forall>w. get_weather_data no_temperature_env LAT LON \<noteq> Inr (Some w)"
    using f' tv' by (intro t2) simp
  note t3 = null_leaf_values_are_absent [where env = no_forecast_url_env and lat = LAT
      and lon = LON and ?pd0.0 = no_forecast_url_point and ?p0.0 = ?p0,
      THEN conjunct2, THEN conjunct2, THEN mp]
  have c: "\<forall>w. get_weather_data no_forecast_url_env LAT LON \<noteq> Inr (Some w)"
    using g p k by (intro t3) simp
  show ?thesis
    by (intro conjI) (rule f, rule tv, rule wv, rule a, rule f', rule tv', rule b,
      rule g, rule p, rule c)
qed

section \<open>Properties of the script\<close>

text \<open>
  Claim C4.  If the weather fetch yields a failure, the run ends before the generation
  service is called and the output file is left as it was: the state after the run is the
  state before it, which holds the file and the list of calls made.  That is so when the
  fetch returns \<open>None\<close>, as for an empty feature list, and when an exception leaves it.
  In every run the file is either unchanged or holds a complete record, built from the
  snapshot, the generated text and the local time.
\<close>

theorem fetch_failure_writes_nothing:
  "(get_weather_data env LAT LON = Inr None \<longrightarrow> main env w = (None, w)) \<and>
   (get_weather_data env LAT LON = Inl e \<longrightarrow> main env w = (Some e, w)) \<and>
   (output_file (snd (main env w)) = output_file w \<or>
    (\<exists>data prompt response.
       get_weather_data env LAT LON = Inr (Some data) \<and>
       build_prompt env data = Inr prompt \<and>
       llm_prompt env prompt attachments = Inr response \<and>
       generation_calls (snd (main env w)) = generation_calls w @ [(prompt, attachments)] \<and>
       output_file (snd (main env w)) =
         Some \<lparr>forecast_data = data,
               weather_report = fst (extract_color (unicode env) response),
               color_code = snd (extract_color (unicode env) response),
               result_timestamp = now_local env\<rparr>))"
proof (intro conjI impI)
  assume "get_weather_data env LAT LON = Inr None"
  then show "main env w = (None, w)" by (simp add: main_def)
next
  assume "get_weather_data env LAT LON = Inl e"
  then show "main env w = (Some e, w)" by (simp add: main_def)
next
  show "output_file (snd (main env w)) = output_file w \<or>
    (\<exists>data prompt response.
       get_weather_data env LAT LON = Inr (Some data) \<and>
       build_prompt env data = Inr prompt \<and>
       llm_prompt env prompt attachments = Inr response \<and>
       generation_calls (snd (main env w)) = generation_calls w @ [(prompt, attachments)] \<and>
       output_file (snd (main env w)) =
         Some \<lparr>forecast_data = data,
               weather_report = fst (extract_color (unicode env) response),
               color_code = snd (extract_color (unicode env) response),
               result_timestamp = now_local env\<rparr>)"
  proof (cases "get_weather_data env LAT LON")
    case (Inl e)
    then show ?thesis by (simp add: main_def)
  next
    case (Inr r)
    show ?thesis
    proof (cases r)
      case None
      then show ?thesis using Inr by (simp add: main_def)
    next
      case (Some data)
      show ?thesis
      proof (cases "build_prompt env data")
        case (Inl e)
        then show ?thesis using Inr Some by (simp add: main_def)
      next
        case p: (Inr prompt)
        show ?thesis
        proof (cases "llm_prompt env prompt attachments")
          case (Inl e)
          then show ?thesis using Inr Some p by (simp add: main_def Let_def)
        next
          case g: (Inr response)
          have "main env w =
            (None, w\<lparr>generation_calls := generation_calls w @ [(prompt, attachments)],
                     output_file := Some \<lparr>forecast_data = data,
                       weather_report = fst (extract_color (unicode env) response),
                       color_code = snd (extract_color (unicode env) response),
                       result_timestamp = now_local env\<rparr>\<rparr>)"
            using Inr Some p g by (simp add: main_def Let_def)
          then show ?thesis using Inr Some p g by simp
        qed
      qed
    qed
  qed
qed

theorem fetch_failure_writes_nothing_witness:
  "get_weather_data no_stations_resolving_env LAT LON = Inr None \<and>
   main no_stations_resolving_env empty_world = (None, empty_world) \<and>
   get_weather_data no_stations_env LAT LON = Inl AttributeError \<and>
   main no_stations_env empty_world = (Some AttributeError, empty_world)"
proof -
  have a: "get_weather_data no_stations_resolving_env LAT LON = Inr None"
    by code_simp
  have b: "get_weather_data no_stations_env LAT LON = Inl AttributeError"
    by code_simp
  note t = fetch_failure_writes_nothing [where env = no_stations_resolving_env
      and w = empty_world, THEN conjunct1, THEN mp]
  note t' = fetch_failure_writes_nothing [where env = no_stations_env and w = empty_world,
      THEN conjunct2, THEN conjunct1, THEN mp]
  show ?thesis
    by (intro conjI) (rule a, rule t [OF a], rule b, rule t' [OF b])
qed

end
